theory Spec2Isabelle
  imports Main
begin

section \<open>Python values, exceptions and dictionaries\<close>

text \<open>
  The values that travel through the widget form: \<^verbatim>\<open>None\<close>, the booleans of the
  checkboxes, strings (dropdown choices, free text, column names) and integers (the column
  labels of a data frame need not be strings).
\<close>

datatype pyval = PNone | PBool bool | PInt int | PStr string

datatype py_error = KeyError | IndexError | TypeError | AttributeError | ValueError

text \<open>
  The methods of \<^verbatim>\<open>Interact\<close> mutate the instance in place, so a call that raises
  still leaves the instance in the state it reached: an outcome carries that state in both
  cases.
\<close>

datatype 'a outcome = Returns 'a | Raises py_error 'a

fun state_of :: "'a outcome \<Rightarrow> 'a" where
  "state_of (Returns s) = s"
| "state_of (Raises err s) = s"

fun returns :: "'a outcome \<Rightarrow> bool" where
  "returns (Returns s) = True"
| "returns (Raises err s) = False"

type_synonym dict = "string \<rightharpoonup> pyval"

text \<open>\<^verbatim>\<open>k in d\<close>\<close>

definition has_key :: "dict \<Rightarrow> string \<Rightarrow> bool" where
  "has_key d k = (d k \<noteq> None)"

text \<open>\<^verbatim>\<open>d.pop(k)\<close>: the value and the dictionary without the key; KeyError when absent.\<close>

definition pop :: "dict \<Rightarrow> string \<Rightarrow> py_error + pyval \<times> dict" where
  "pop d k = (case d k of None \<Rightarrow> Inl KeyError | Some v \<Rightarrow> Inr (v, d(k := None)))"

text \<open>\<^verbatim>\<open>d.pop(k, default)\<close>: never raises.\<close>

definition pop_default :: "dict \<Rightarrow> string \<Rightarrow> pyval \<Rightarrow> pyval \<times> dict" where
  "pop_default d k dflt = (case d k of None \<Rightarrow> (dflt, d) | Some v \<Rightarrow> (v, d(k := None)))"

text \<open>
  \<^verbatim>\<open>xs[i]\<close> on a list: a negative index counts from the end, an index out of range
  raises IndexError. The result is the position read.
\<close>

definition getitem :: "'a list \<Rightarrow> int \<Rightarrow> py_error + nat" where
  "getitem xs i =
     (if 0 \<le> i \<and> i < int (length xs) then Inr (nat i)
      else if i < 0 \<and> - int (length xs) \<le> i then Inr (nat (int (length xs) + i))
      else Inl IndexError)"

text \<open>\<^verbatim>\<open>xs[:n]\<close>: a negative bound drops that many elements from the end.\<close>

definition slice_to :: "'a list \<Rightarrow> int \<Rightarrow> 'a list" where
  "slice_to xs n = (if 0 \<le> n then take (nat n) xs else take (length xs - nat (- n)) xs)"

text \<open>\<^verbatim>\<open>range(n)\<close>, empty for a negative bound.\<close>

definition range :: "int \<Rightarrow> int list" where
  "range n = map int [0 ..< nat n]"

text \<open>
  A dictionary built by a comprehension keeps its keys in insertion order; storing under a
  key already present replaces the value where it stands.
\<close>

fun setitem :: "('k \<times> 'v) list \<Rightarrow> 'k \<Rightarrow> 'v \<Rightarrow> ('k \<times> 'v) list" where
  "setitem [] k v = [(k, v)]"
| "setitem ((k', v') # kvs) k v = (if k' = k then (k, v) # kvs else (k', v') # setitem kvs k v)"

subsection \<open>Strings\<close>

fun startswith :: "string \<Rightarrow> string \<Rightarrow> bool" where
  "startswith s [] = True"
| "startswith [] (p # ps) = False"
| "startswith (c # cs) (p # ps) = (c = p \<and> startswith cs ps)"

text \<open>\<^verbatim>\<open>sub in s\<close> on strings.\<close>

fun contains :: "string \<Rightarrow> string \<Rightarrow> bool" where
  "contains [] sub = (sub = [])"
| "contains (c # cs) sub = (startswith (c # cs) sub \<or> contains cs sub)"

text \<open>
  \<^verbatim>\<open>sub in v\<close> on a value: the substring test on a string, TypeError on \<^verbatim>\<open>None\<close>,
  a boolean or an integer (not iterable).
\<close>

fun py_in :: "string \<Rightarrow> pyval \<Rightarrow> py_error + bool" where
  "py_in sub (PStr s) = Inr (contains s sub)"
| "py_in sub v = Inl TypeError"

definition upper :: "char \<Rightarrow> char" where
  "upper c =
     (case map_of (zip ''abcdefghijklmnopqrstuvwxyz'' ''ABCDEFGHIJKLMNOPQRSTUVWXYZ'') c of
        Some u \<Rightarrow> u | None \<Rightarrow> c)"

definition lower :: "char \<Rightarrow> char" where
  "lower c =
     (case map_of (zip ''ABCDEFGHIJKLMNOPQRSTUVWXYZ'' ''abcdefghijklmnopqrstuvwxyz'') c of
        Some l \<Rightarrow> l | None \<Rightarrow> c)"

text \<open>\<^verbatim>\<open>s.capitalize()\<close> on ASCII text: first character upper case, the rest lower case.\<close>

fun capitalize :: "string \<Rightarrow> string" where
  "capitalize [] = []"
| "capitalize (c # cs) = upper c # map lower cs"

section \<open>The catalogs\<close>

definition get_columns :: "pyval list \<Rightarrow> pyval list" where
  "get_columns df_columns = df_columns @ [PStr ''*'']"

definition get_types :: "string list" where
  "get_types = [''quantitative'', ''ordinal'', ''nominal'', ''temporal'']"

definition get_encodings :: "string list" where
  "get_encodings = [''x'', ''y'', ''color'', ''text'', ''row'', ''column'',
                    ''opacity'', ''shape'', ''size'']"

definition get_functions :: "string list" where
  "get_functions = [''mean'', ''min'', ''max'', ''median'', ''average'', ''sum'',
                    ''count'', ''distinct'', ''variance'', ''stdev'', ''q1'', ''q3'',
                    ''argmin'', ''argmax'']"

definition get_marks :: "string list" where
  "get_marks = map (\<lambda>f. ''mark_'' @ f) [''point'', ''circle'', ''line'', ''bar'', ''tick'',
                                          ''text'', ''square'', ''rule'', ''area'']"

definition get_mark_params :: "string list" where
  "get_mark_params = [''color'', ''applyColorToBackground'', ''shortTimeLabels'']"

text \<open>
  \<^verbatim>\<open>_get_advanced_settings(e)\<close>: a dictionary from every encoding to a fresh list
  \<^verbatim>\<open>['type', 'bin', 'aggregate']\<close>, extended for x, y and text, then updated with the
  mark parameters of every mark; the lookup of a key that is not there raises KeyError.
\<close>

definition iadd :: "(string \<rightharpoonup> string list) \<Rightarrow> string \<Rightarrow> string list \<Rightarrow>
    py_error + (string \<rightharpoonup> string list)" where
  "iadd m k more = (case m k of None \<Rightarrow> Inl KeyError | Some xs \<Rightarrow> Inr (m(k \<mapsto> xs @ more)))"

definition get_advanced_settings :: "pyval \<Rightarrow> py_error + string list" where
  "get_advanced_settings e =
     (let adv_settings = map_of (map (\<lambda>e. (e, [''type'', ''bin'', ''aggregate''])) get_encodings)
      in case iadd adv_settings ''x'' [''zero'', ''scale''] of Inl err \<Rightarrow> Inl err
         | Inr adv_settings \<Rightarrow>
        (case iadd adv_settings ''y'' [''zero'', ''scale''] of Inl err \<Rightarrow> Inl err
         | Inr adv_settings \<Rightarrow>
        (case iadd adv_settings ''text'' [''text''] of Inl err \<Rightarrow> Inl err
         | Inr adv_settings \<Rightarrow>
        (let mark_settings = map_of (map (\<lambda>mark. (mark, get_mark_params)) get_marks);
             adv_settings = adv_settings ++ mark_settings
         in case e of
              PStr s \<Rightarrow> (case adv_settings s of None \<Rightarrow> Inl KeyError | Some adv \<Rightarrow> Inr adv)
            | _ \<Rightarrow> Inl KeyError))))"

section \<open>Events and settings\<close>

text \<open>
  A change event, as \<^verbatim>\<open>Interact.update\<close> documents it: a dictionary with the keys
  \<^verbatim>\<open>owner\<close>, \<^verbatim>\<open>new\<close> and \<^verbatim>\<open>old\<close>, the owner having the properties row, title
  and value.
\<close>

record owner =
  row :: int
  title :: string
  val :: pyval

record event =
  owner :: owner
  new :: pyval
  old :: pyval

text \<open>\<^verbatim>\<open>{'mark': {...}, 'encodings': [{...}, ...]}\<close>\<close>

record plot_settings =
  mark :: dict
  encodings :: "dict list"

section \<open>The widget tree\<close>

datatype wkind = Dropdown | Checkbox | Text | Button | HBox | VBox

text \<open>The two bound methods registered as callbacks.\<close>

datatype callback = Update | ShowAdvanced

text \<open>
  What the program reads and writes of a widget: the toolkit's traits (description,
  options, value, disabled, visible, layout), the registered callbacks, and the two tags
  \<^verbatim>\<open>row\<close> and \<^verbatim>\<open>title\<close> the program attaches (absent until assigned).
\<close>

record widget_attrs =
  kind :: wkind
  description :: string
  options :: "pyval list"
  w_value :: pyval
  disabled :: bool
  visible :: bool
  layout :: "string \<rightharpoonup> string"
  observers :: "callback list"
  on_click :: "callback list"
  w_row :: "int option"
  w_title :: "string option"

datatype widget = Widget (attrs: widget_attrs) (children: "widget list")

section \<open>The chart compiler\<close>

text \<open>
  The charting library is outside the repository. A call into it is recorded as the call
  made: \<^verbatim>\<open>altair.Scale(type=t, zero=z)\<close> as \<open>Scale t z\<close>, and
  \<^verbatim>\<open>getattr(altair, name)(column, **d)\<close>, the lookup of the constructor included, as
  \<open>Channel name column d\<close>. A descriptor of the model says which constructor the program
  calls and with what; that the library has a constructor of that name, or accepts the
  arguments it is handed, is not modelled.
\<close>

datatype arg = Plain pyval | Scale pyval pyval

datatype channel = Channel string pyval "string \<rightharpoonup> arg"

text \<open>
  \<^verbatim>\<open>_get_plot_command(e)\<close>. The function works on two dictionaries: its argument
  \<open>e\<close>, which belongs to the caller, and the new dictionary \<open>d\<close> it fills with the
  items of \<open>e\<close>. The result is the caller's dictionary as the call leaves it, and what
  the call returns (\<open>None\<close> for Python's \<^verbatim>\<open>None\<close>) or raises.
\<close>

definition get_plot_command :: "dict \<Rightarrow> dict \<times> (py_error + channel option)" where
  "get_plot_command e =
     (let d = e
      in if \<not> has_key e ''column'' then (e, Inr None)
         else case pop d ''encoding'' of Inl err \<Rightarrow> (e, Inl err)
           | Inr (encoding, d) \<Rightarrow>
          (case pop d ''column'' of Inl err \<Rightarrow> (e, Inl err)
           | Inr (column, d) \<Rightarrow>
             (let (scale, d) =
                    (if list_ex (has_key d) [''scale'', ''zero'']
                     then (let (t, d) = pop_default d ''scale'' PNone;
                               (z, d) = pop_default d ''zero'' PNone
                           in ([(''scale'', Scale t z)], d))
                     else ([], d));
                  kwargs = (map_option Plain \<circ> d) ++ map_of scale
              in case encoding of
                   PStr name \<Rightarrow> (e, Inr (Some (Channel (capitalize name) column kwargs)))
                 | _ \<Rightarrow> (e, Inl AttributeError))))"

subsection \<open>The dictionary form of a field descriptor\<close>

datatype json = JNull | JBool bool | JInt int | JStr string | JObj "string \<rightharpoonup> json"

fun json_of :: "pyval \<Rightarrow> json" where
  "json_of PNone = JNull"
| "json_of (PBool b) = JBool b"
| "json_of (PInt i) = JInt i"
| "json_of (PStr s) = JStr s"

text \<open>An option of a descriptor shows in its dictionary form when it was given a value.\<close>

definition given :: "string \<Rightarrow> pyval \<Rightarrow> string \<rightharpoonup> json" where
  "given k v = (if v = PNone then Map.empty else [k \<mapsto> json_of v])"

fun arg_to_dict :: "arg \<Rightarrow> json option" where
  "arg_to_dict (Plain v) = (if v = PNone then None else Some (json_of v))"
| "arg_to_dict (Scale t z) = Some (JObj (given ''type'' t ++ given ''zero'' z))"

text \<open>
  Modelled from the spec: the charting library's \<^verbatim>\<open>to_dict\<close> is not part of the
  repository. As the doctest of \<^verbatim>\<open>_get_plot_command\<close> and the spec's example have it,
  the dictionary form of a field descriptor holds the column under \<^verbatim>\<open>field\<close> and
  every option that was given a value other than \<^verbatim>\<open>None\<close>, a scale descriptor in turn
  as the dictionary of its \<^verbatim>\<open>type\<close> and \<^verbatim>\<open>zero\<close> where given. Shorthand in the
  column name is not interpreted.
\<close>

fun to_dict :: "channel \<Rightarrow> json" where
  "to_dict (Channel name column kwargs) =
     JObj ((\<lambda>k. case kwargs k of None \<Rightarrow> None | Some a \<Rightarrow> arg_to_dict a)
             ++ given ''field'' column)"

text \<open>
  The chart object: \<^verbatim>\<open>getattr(altair.Chart(df), mark)(**mark_opts).encode(**kwargs)\<close>,
  again as the calls made.
\<close>

record altair_chart =
  data :: "pyval list"
  mark_method :: string
  mark_opts :: dict
  encoding :: "(string \<times> channel option) list"

datatype display_action = DisplayController | ClearOutput | DisplayChart altair_chart

text \<open>
  An \<^verbatim>\<open>Interact\<close> instance. The data frame is kept by its column labels; \<open>displayed\<close>
  is what the instance has sent to the notebook's display so far.
\<close>

record interact =
  df :: "pyval list"
  settings :: plot_settings
  controller :: widget
  show_flag :: bool
  chart :: "altair_chart option"
  displayed :: "display_action list"

text \<open>
  \<^verbatim>\<open>{e['encoding']: _get_plot_command(e) for e in self.settings['encodings']}\<close>, entry
  by entry. The entries come back as the calls left them.
\<close>

fun plot_kwargs :: "dict list \<Rightarrow> (pyval \<times> channel option) list \<Rightarrow>
    dict list \<times> (py_error + (pyval \<times> channel option) list)" where
  "plot_kwargs [] kwargs = ([], Inr kwargs)"
| "plot_kwargs (e # es) kwargs =
     (case e ''encoding'' of
        None \<Rightarrow> (e # es, Inl KeyError)
      | Some key \<Rightarrow>
         (case get_plot_command e of
            (e', Inl err) \<Rightarrow> (e' # es, Inl err)
          | (e', Inr c) \<Rightarrow>
             (case plot_kwargs es (setitem kwargs key c) of (es', r) \<Rightarrow> (e' # es', r))))"

text \<open>\<^verbatim>\<open>f(**kwargs)\<close> takes string keys only; any other key is a TypeError.\<close>

fun str_keys :: "(pyval \<times> 'v) list \<Rightarrow> py_error + (string \<times> 'v) list" where
  "str_keys [] = Inr []"
| "str_keys ((PStr k, v) # kvs) =
     (case str_keys kvs of Inl err \<Rightarrow> Inl err | Inr kws \<Rightarrow> Inr ((k, v) # kws))"
| "str_keys ((k, v) # kvs) = Inl TypeError"

text \<open>
  Modelled from the spec: the charting library is not part of the repository. Of the
  attributes of its chart object the model knows the mark methods the spec lists for the
  mark selector, which are the names of \<^verbatim>\<open>_get_marks\<close>; \<^verbatim>\<open>getattr\<close> with any
  other name raises AttributeError, as it does for a name the chart lacks.
\<close>

definition chart_has :: "string \<Rightarrow> bool" where
  "chart_has name = (name \<in> set get_marks)"

text \<open>
  \<^verbatim>\<open>Interact.plot(self, settings, show=True)\<close>. The attribute name handed to
  \<^verbatim>\<open>getattr\<close> must be a string (TypeError otherwise) and one the chart has
  (AttributeError otherwise).
\<close>

definition plot :: "interact \<Rightarrow> plot_settings \<Rightarrow> bool \<Rightarrow> interact outcome" where
  "plot self settings_arg show_arg =
     (case plot_kwargs (encodings (settings self)) [] of
        (es, r) \<Rightarrow>
         (let self = self\<lparr>settings := (settings self)\<lparr>encodings := es\<rparr>\<rparr>
          in case r of
               Inl err \<Rightarrow> Raises err self
             | Inr kwargs \<Rightarrow>
                (let mark_opts = mark (settings self)
                 in case pop mark_opts ''mark'' of
                      Inl err \<Rightarrow> Raises err self
                    | Inr (PStr m, mark_opts) \<Rightarrow>
                       (if chart_has m
                        then (case str_keys kwargs of
                          Inl err \<Rightarrow> Raises err self
                        | Inr kws \<Rightarrow>
                           (let c = \<lparr>data = df self, mark_method = m,
                                     mark_opts = mark_opts, encoding = kws\<rparr>;
                                self = self\<lparr>chart := Some c\<rparr>
                            in Returns (if show_arg \<and> show_flag self
                                 then self\<lparr>displayed := displayed self @ [ClearOutput, DisplayChart c]\<rparr>
                                 else self)))
                        else Raises AttributeError self)
                    | Inr (_, mark_opts) \<Rightarrow> Raises TypeError self)))"

section \<open>The settings synchronizer\<close>

text \<open>
  One statement \<^verbatim>\<open>self.settings['encodings'][index]...\<close> of the handler: read the
  entry at the index and store what the statement makes of it.
\<close>

definition modify_entry :: "plot_settings \<Rightarrow> int \<Rightarrow> (dict \<Rightarrow> py_error + dict) \<Rightarrow>
    plot_settings outcome" where
  "modify_entry s index f =
     (case getitem (encodings s) index of
        Inl err \<Rightarrow> Raises err s
      | Inr i \<Rightarrow>
         (case f (encodings s ! i) of
            Inl err \<Rightarrow> Raises err s
          | Inr d \<Rightarrow> Returns (s\<lparr>encodings := (encodings s)[i := d]\<rparr>)))"

text \<open>
  The body of \<^verbatim>\<open>Interact.update\<close> before its last line, on the settings.
  \<^verbatim>\<open>value is ''\<close> compares with the empty string, which CPython keeps as one object.
\<close>

definition update_settings :: "event \<Rightarrow> plot_settings \<Rightarrow> plot_settings outcome" where
  "update_settings event s =
     (let index = row (owner event);
          title = title (owner event);
          value = val (owner event)
      in if index = - 1 then Returns (s\<lparr>mark := (mark s)(title \<mapsto> new event)\<rparr>)
         else
          (case (if title = ''type'' then py_in ''auto'' value else Inr False) of
             Inl err \<Rightarrow> Raises err s
           | Inr auto \<Rightarrow>
              (case (if auto
                     then modify_entry s index (\<lambda>d. Inr (snd (pop_default d ''type'' PNone)))
                     else Returns s) of
                 Raises err s \<Rightarrow> Raises err s
               | Returns s \<Rightarrow>
                  (if title = ''text''
                   then (if value = PStr []
                         then modify_entry s index (\<lambda>d. Inr (snd (pop_default d ''text'' PNone)))
                         else modify_entry s index (\<lambda>d. Inr (d(''column'' \<mapsto> value))))
                   else (if new event = PNone
                         then modify_entry s index (\<lambda>d. map_sum id snd (pop d title))
                         else modify_entry s index (\<lambda>d. Inr (d(title \<mapsto> new event))))))))"

text \<open>\<^verbatim>\<open>Interact.update(self, event)\<close>: the settings, then \<^verbatim>\<open>self.plot(self.settings)\<close>.\<close>

definition update :: "event \<Rightarrow> interact \<Rightarrow> interact outcome" where
  "update event self =
     (case update_settings event (settings self) of
        Raises err s \<Rightarrow> Raises err (self\<lparr>settings := s\<rparr>)
      | Returns s \<Rightarrow> (let self = self\<lparr>settings := s\<rparr> in plot self (settings self) True))"

section \<open>The controller tree builder\<close>

text \<open>
  The toolkit's constructors, as far as the program uses them: a widget starts enabled and
  visible, with no callbacks and no tags; a dropdown built without a value selects the
  first of its options; a checkbox starts unchecked and a text box empty.
\<close>

definition new_widget :: "wkind \<Rightarrow> widget_attrs" where
  "new_widget k =
     \<lparr>kind = k, description = [], options = [], w_value = PNone, disabled = False,
      visible = True, layout = Map.empty, observers = [], on_click = [],
      w_row = None, w_title = None\<rparr>"

definition with_attrs :: "(widget_attrs \<Rightarrow> widget_attrs) \<Rightarrow> widget \<Rightarrow> widget" where
  "with_attrs f w = Widget (f (attrs w)) (children w)"

definition new_dropdown :: "pyval list \<Rightarrow> string \<Rightarrow> widget" where
  "new_dropdown opts desc =
     Widget ((new_widget Dropdown)\<lparr>options := opts, description := desc,
               w_value := (case opts of [] \<Rightarrow> PNone | v # _ \<Rightarrow> v)\<rparr>) []"

definition new_checkbox :: "string \<Rightarrow> widget" where
  "new_checkbox desc = Widget ((new_widget Checkbox)\<lparr>description := desc, w_value := PBool False\<rparr>) []"

definition new_text :: "string \<Rightarrow> widget" where
  "new_text desc = Widget ((new_widget Text)\<lparr>description := desc, w_value := PStr []\<rparr>) []"

definition new_button :: "string \<Rightarrow> widget" where
  "new_button desc = Widget ((new_widget Button)\<lparr>description := desc\<rparr>) []"

definition set_layout :: "string \<Rightarrow> string \<Rightarrow> widget \<Rightarrow> widget" where
  "set_layout k v = with_attrs (\<lambda>a. a\<lparr>layout := (layout a)(k \<mapsto> v)\<rparr>)"

definition observe :: "callback \<Rightarrow> widget \<Rightarrow> widget" where
  "observe h = with_attrs (\<lambda>a. a\<lparr>observers := observers a @ [h]\<rparr>)"

definition set_on_click :: "callback \<Rightarrow> widget \<Rightarrow> widget" where
  "set_on_click h = with_attrs (\<lambda>a. a\<lparr>on_click := on_click a @ [h]\<rparr>)"

definition set_row :: "int \<Rightarrow> widget \<Rightarrow> widget" where
  "set_row i = with_attrs (\<lambda>a. a\<lparr>w_row := Some i\<rparr>)"

definition set_title :: "string \<Rightarrow> widget \<Rightarrow> widget" where
  "set_title t = with_attrs (\<lambda>a. a\<lparr>w_title := Some t\<rparr>)"

text \<open>\<^verbatim>\<open>[f(x) for x in xs]\<close>: the first call that raises ends the comprehension.\<close>

fun comprehension :: "('a \<Rightarrow> py_error + 'b) \<Rightarrow> 'a list \<Rightarrow> py_error + 'b list" where
  "comprehension f [] = Inr []"
| "comprehension f (x # xs) =
     (case f x of
        Inl err \<Rightarrow> Inl err
      | Inr y \<Rightarrow> (case comprehension f xs of Inl err \<Rightarrow> Inl err | Inr ys \<Rightarrow> Inr (y # ys)))"

text \<open>\<^verbatim>\<open>Interact._create_shelf(self, columns, i=0)\<close>\<close>

definition create_shelf :: "pyval list \<Rightarrow> int \<Rightarrow> py_error + widget" where
  "create_shelf columns i =
     (let encodings = get_encodings;
          cols = new_dropdown columns ''encode''
      in case getitem encodings i of
           Inl err \<Rightarrow> Inl err
         | Inr j \<Rightarrow>
            (let encoding = with_attrs (\<lambda>a. a\<lparr>w_value := PStr (encodings ! j)\<rparr>)
                              (new_dropdown (map PStr encodings) ''as'');
                 encoding = set_layout ''width'' ''20%'' encoding;
                 adv = Widget ((new_widget HBox)\<lparr>visible := False\<rparr>) [];
                 adv = set_layout ''display'' ''none'' adv;
                 button = new_button ''options'';
                 button = set_on_click ShowAdvanced button;
                 button = set_layout ''width'' ''10%'' button;
                 encoding = observe Update encoding;
                 cols = observe Update cols;
                 encoding = set_row i encoding;
                 cols = set_row i cols;
                 button = set_row i button;
                 adv = set_row i adv;
                 encoding = set_title ''encoding'' encoding;
                 cols = set_title ''column'' cols;
                 button = set_title ''button'' button;
                 adv = set_title ''advanced'' adv
             in Inr (Widget (new_widget HBox) [cols, encoding, button, adv])))"

text \<open>\<^verbatim>\<open>Interact._generate_controller(self, columns, ndims)\<close>\<close>

definition generate_controller :: "pyval list \<Rightarrow> int \<Rightarrow> py_error + widget" where
  "generate_controller columns ndims =
     (let marks = get_marks;
          mark_choose = new_dropdown (map PStr marks) ''Marks'';
          mark_choose = observe Update mark_choose;
          mark_choose = set_layout ''width'' ''20%'' mark_choose;
          mark_choose = set_row (- 1) mark_choose;
          mark_choose = set_title ''mark'' mark_choose;
          mark_but = new_button ''options'';
          mark_but = set_layout ''width'' ''10%'' mark_but;
          mark_but = set_row (- 1) mark_but;
          mark_but = set_title ''mark_button'' mark_but;
          mark_opt = Widget ((new_widget VBox)\<lparr>visible := False\<rparr>) [];
          mark_but = set_on_click ShowAdvanced mark_but;
          mark_opt = set_title ''mark_options'' mark_opt;
          mark_opt = set_layout ''width'' ''300px'' mark_opt
      in case comprehension (create_shelf columns) (range ndims) of
           Inl err \<Rightarrow> Inl err
         | Inr dims \<Rightarrow>
            (let choices = dims @ [Widget (new_widget HBox) [mark_choose, mark_but, mark_opt]]
             in Inr (Widget (new_widget VBox) choices)))"

text \<open>\<^verbatim>\<open>_controllers_for(opt)\<close>\<close>

definition controllers_for :: "string \<Rightarrow> py_error + widget" where
  "controllers_for opt =
     (let colors = [PNone, PStr ''blue'', PStr ''red'', PStr ''green'', PStr ''black''];
          controllers =
            [(''type'', new_dropdown (PStr ''auto detect'' # map PStr get_types) ''type''),
             (''bin'', new_checkbox ''bin''),
             (''aggregate'', new_dropdown (PNone # map PStr get_functions) ''aggregate''),
             (''zero'', new_checkbox ''zero''),
             (''text'', new_text ''text value''),
             (''scale'', new_dropdown [PStr ''linear'', PStr ''log''] ''scale''),
             (''color'', new_dropdown colors ''main color''),
             (''applyColorToBackground'', new_checkbox ''applyColorToBackground''),
             (''shortTimeLabels'', new_checkbox ''shortTimeLabels'')];
          controllers =
            map (\<lambda>(title, controller).
                  (title,
                   (let controller = set_title title controller
                    in if kind (attrs controller) = Checkbox
                       then set_layout ''max_width'' ''200ex'' controller
                       else controller)))
              controllers
      in case map_of controllers opt of None \<Rightarrow> Inl KeyError | Some c \<Rightarrow> Inr c)"

text \<open>
  \<^verbatim>\<open>Interact._show_advanced(self, button, disable=1)\<close>. Everything that can raise
  comes before the first assignment, so a call that raises leaves the instance as it was.
\<close>

definition show_advanced :: "widget \<Rightarrow> int \<Rightarrow> interact \<Rightarrow> py_error + interact" where
  "show_advanced button disable self =
     (case w_title (attrs button) of
        None \<Rightarrow> Inl AttributeError
      | Some button_title \<Rightarrow>
     (let disable = (if contains button_title ''mark'' then 0 else disable)
      in case w_row (attrs button) of
        None \<Rightarrow> Inl AttributeError
      | Some button_row \<Rightarrow>
     (let row = button_row;
          rows = children (controller self)
      in case getitem rows row of
        Inl err \<Rightarrow> Inl err
      | Inr r \<Rightarrow>
     (let shelf = children (rows ! r)
      in case getitem shelf disable of
        Inl err \<Rightarrow> Inl err
      | Inr p \<Rightarrow>
     (case get_advanced_settings (w_value (attrs (shelf ! p))) of
        Inl err \<Rightarrow> Inl err
      | Inr adv \<Rightarrow>
     (case comprehension controllers_for adv of
        Inl err \<Rightarrow> Inl err
      | Inr controllers \<Rightarrow>
     (let controllers = map (\<lambda>c. observe Update (set_row row c)) controllers
      in case getitem shelf (- 1) of
        Inl err \<Rightarrow> Inl err
      | Inr l \<Rightarrow>
     (let visible = visible (attrs (shelf ! l));
          shelf = shelf[p := with_attrs (\<lambda>a. a\<lparr>disabled := \<not> visible\<rparr>) (shelf ! p)];
          shelf = shelf[l := with_attrs (\<lambda>a. a\<lparr>visible := \<not> visible\<rparr>) (shelf ! l)];
          shelf = shelf[l := Widget (attrs (shelf ! l)) controllers];
          rows = rows[r := Widget (attrs (rows ! r)) shelf]
      in Inr (self\<lparr>controller := Widget (attrs (controller self)) rows\<rparr>)))))))))"

text \<open>
  The two flags a toggle works on, read the way \<^verbatim>\<open>_show_advanced\<close> addresses them from
  the button clicked: \<^verbatim>\<open>children[row].children[disable].disabled\<close> of the primary
  selector and \<^verbatim>\<open>children[row].children[-1].visible\<close> of the advanced panel.
\<close>

definition row_flags :: "widget \<Rightarrow> int \<Rightarrow> interact \<Rightarrow> py_error + bool \<times> bool" where
  "row_flags button disable self =
     (case w_title (attrs button) of
        None \<Rightarrow> Inl AttributeError
      | Some button_title \<Rightarrow>
     (let disable = (if contains button_title ''mark'' then 0 else disable)
      in case w_row (attrs button) of
        None \<Rightarrow> Inl AttributeError
      | Some button_row \<Rightarrow>
     (let rows = children (controller self)
      in case getitem rows button_row of
        Inl err \<Rightarrow> Inl err
      | Inr r \<Rightarrow>
     (let shelf = children (rows ! r)
      in case getitem shelf disable of
        Inl err \<Rightarrow> Inl err
      | Inr p \<Rightarrow>
     (case getitem shelf (- 1) of
        Inl err \<Rightarrow> Inl err
      | Inr l \<Rightarrow> Inr (disabled (attrs (shelf ! p)), visible (attrs (shelf ! l))))))))"

section \<open>Construction\<close>

text \<open>What \<^verbatim>\<open>Interact\<close> may be handed as its data: a data frame, or anything else.\<close>

datatype py_object = DataFrame "pyval list" | NotDataFrame

text \<open>\<^verbatim>\<open>Interact.__init__(self, df, ndims=3, show=True)\<close>\<close>

definition Interact_init :: "py_object \<Rightarrow> int \<Rightarrow> bool \<Rightarrow> py_error + interact" where
  "Interact_init df_arg ndims show_arg =
     (case df_arg of
        NotDataFrame \<Rightarrow> Inl ValueError
      | DataFrame df_columns \<Rightarrow>
         (let columns = PNone # get_columns df_columns;
              encodings = get_encodings;
              encodings = map (\<lambda>encoding. [''encoding'' \<mapsto> PStr encoding])
                            (slice_to encodings ndims);
              settings = \<lparr>mark = [''mark'' \<mapsto> PStr ''mark_point''], encodings = encodings\<rparr>
          in case generate_controller columns ndims of
               Inl err \<Rightarrow> Inl err
             | Inr tree \<Rightarrow>
                (let self = \<lparr>df = df_columns, settings = settings, controller = tree,
                             show_flag = show_arg, chart = None,
                             displayed = (if show_arg then [DisplayController] else [])\<rparr>
                 in case plot self (interact.settings self) show_arg of
                      Raises err self \<Rightarrow> Inl err
                    | Returns self \<Rightarrow> Inr self)))"

text \<open>\<^verbatim>\<open>interact_with(df, ndims=3, **kwargs)\<close>\<close>

definition interact_with :: "py_object \<Rightarrow> int \<Rightarrow> bool \<Rightarrow> py_error + interact" where
  "interact_with df_arg ndims show_arg = Interact_init df_arg ndims show_arg"

section \<open>The states of a form\<close>

text \<open>The options buttons of a form: every button in a row of the controller tree.\<close>

definition options_buttons :: "interact \<Rightarrow> widget list" where
  "options_buttons self =
     filter (\<lambda>w. kind (attrs w) = Button) (concat (map children (children (controller self))))"

text \<open>
  The toolkit writes a control's value when the user edits it: a dropdown takes one of its
  options, a checkbox a boolean, a text box a string. The control is addressed by its path
  of child positions from the root.
\<close>

fun edit_value :: "nat list \<Rightarrow> pyval \<Rightarrow> widget \<Rightarrow> widget option" where
  "edit_value [] v w =
     (if (case kind (attrs w) of
            Dropdown \<Rightarrow> v \<in> set (options (attrs w))
          | Checkbox \<Rightarrow> (case v of PBool b \<Rightarrow> True | _ \<Rightarrow> False)
          | Text \<Rightarrow> (case v of PStr s \<Rightarrow> True | _ \<Rightarrow> False)
          | _ \<Rightarrow> False)
      then Some (with_attrs (\<lambda>a. a\<lparr>w_value := v\<rparr>) w) else None)"
| "edit_value (i # path) v w =
     (if i < length (children w)
      then map_option (\<lambda>c. Widget (attrs w) ((children w)[i := c]))
             (edit_value path v (children w ! i))
      else None)"

text \<open>
  The states an instance goes through: it is constructed; the user edits a control; the
  handler \<^verbatim>\<open>update\<close> runs on an event (and returns or raises); an options button is
  clicked and \<^verbatim>\<open>_show_advanced\<close> returns.
\<close>

inductive reachable :: "interact \<Rightarrow> bool" where
  constructed: "Interact_init df_arg ndims show_arg = Inr self \<Longrightarrow> reachable self"
| edited: "reachable self \<Longrightarrow> edit_value path v (controller self) = Some tree \<Longrightarrow>
     reachable (self\<lparr>controller := tree\<rparr>)"
| changed: "reachable self \<Longrightarrow> reachable (state_of (update event self))"
| clicked: "reachable self \<Longrightarrow> button \<in> set (options_buttons self) \<Longrightarrow>
     show_advanced button 1 self = Inr self' \<Longrightarrow> reachable self'"

text \<open>
  The shape of the rows, as the builder makes them and the handlers keep them: an encoding
  row holds the column selector, the encoding selector (showing one of the encodings), the
  options button tagged with the row's index, and the advanced panel; the mark row holds the
  mark selector (showing one of the marks), its options button tagged \<open>-1\<close>, and its
  panel. In both the selector is disabled exactly when the panel is visible.
\<close>

definition is_encoding_row :: "int \<Rightarrow> widget \<Rightarrow> bool" where
  "is_encoding_row i w =
     (case children w of
        [cols, enc, but, adv] \<Rightarrow>
          kind (attrs cols) = Dropdown \<and>
          kind (attrs enc) = Dropdown \<and>
          set (options (attrs enc)) = PStr ` set get_encodings \<and>
          w_value (attrs enc) \<in> PStr ` set get_encodings \<and>
          kind (attrs but) = Button \<and>
          w_row (attrs but) = Some i \<and>
          w_title (attrs but) = Some ''button'' \<and>
          kind (attrs adv) = HBox \<and>
          disabled (attrs enc) = visible (attrs adv)
      | _ \<Rightarrow> False)"

definition is_mark_row :: "widget \<Rightarrow> bool" where
  "is_mark_row w =
     (case children w of
        [mark_choose, mark_but, mark_opt] \<Rightarrow>
          kind (attrs mark_choose) = Dropdown \<and>
          set (options (attrs mark_choose)) = PStr ` set get_marks \<and>
          w_value (attrs mark_choose) \<in> PStr ` set get_marks \<and>
          kind (attrs mark_but) = Button \<and>
          w_row (attrs mark_but) = Some (- 1) \<and>
          w_title (attrs mark_but) = Some ''mark_button'' \<and>
          kind (attrs mark_opt) = VBox \<and>
          disabled (attrs mark_choose) = visible (attrs mark_opt)
      | _ \<Rightarrow> False)"

definition is_form :: "widget \<Rightarrow> bool" where
  "is_form tree =
     (kind (attrs tree) = VBox \<and>
      (\<exists>dims m. children tree = dims @ [m] \<and> kind (attrs m) = HBox \<and> is_mark_row m \<and>
         (\<forall>i<length dims. kind (attrs (dims ! i)) = HBox \<and> is_encoding_row (int i) (dims ! i))))"

text \<open>
  The shelf the three assignments of \<^verbatim>\<open>_show_advanced\<close> leave: selector at \<open>p\<close>, panel
  at \<open>l\<close>, the new controllers \<open>cs\<close>.
\<close>

definition toggled :: "widget list \<Rightarrow> nat \<Rightarrow> nat \<Rightarrow> widget list \<Rightarrow> widget list" where
  "toggled shelf p l cs =
     (let visible = visible (attrs (shelf ! l));
          shelf = shelf[p := with_attrs (\<lambda>a. a\<lparr>disabled := \<not> visible\<rparr>) (shelf ! p)];
          shelf = shelf[l := with_attrs (\<lambda>a. a\<lparr>visible := \<not> visible\<rparr>) (shelf ! l)]
      in shelf[l := Widget (attrs (shelf ! l)) cs])"

section \<open>Settings over the catalogs\<close>

text \<open>
  Settings whose names are catalog names: the mark dictionary names one of the marks, and
  every encoding entry carries one of the encodings as its encoding name.
\<close>

definition names :: "string list \<Rightarrow> pyval option \<Rightarrow> bool" where
  "names catalog v = (case v of Some (PStr s) \<Rightarrow> s \<in> set catalog | _ \<Rightarrow> False)"

definition well_formed :: "plot_settings \<Rightarrow> bool" where
  "well_formed s =
     (names get_marks (mark s ''mark'') \<and>
      list_all (\<lambda>e. names get_encodings (e ''encoding'')) (encodings s))"

section \<open>An example session\<close>

text \<open>
  A data frame with two columns, the forms built over it for one dimension and for two (not
  displayed), and the change event a control tagged with row \<open>i\<close> and title \<open>t\<close> fires when its
  value goes from \<open>v_old\<close> to \<open>v\<close>; then the form of two rows after the column selector of
  row 0 went to \<^verbatim>\<open>petalWidth\<close>.
\<close>

definition iris :: py_object where
  "iris = DataFrame [PStr ''sepalLength'', PStr ''petalWidth'']"

definition fresh :: interact where
  "fresh = projr (Interact_init iris 1 False)"

definition two_rows :: interact where
  "two_rows = projr (Interact_init iris 2 False)"

definition change :: "int \<Rightarrow> string \<Rightarrow> pyval \<Rightarrow> pyval \<Rightarrow> event" where
  "change i t v_old v = \<lparr>owner = \<lparr>row = i, title = t, val = v\<rparr>, new = v, old = v_old\<rparr>"

definition x_bound :: interact where
  "x_bound = state_of (update (change 0 ''column'' PNone (PStr ''petalWidth'')) two_rows)"

section \<open>The compiler reads the settings and leaves them alone\<close>

lemma get_plot_command_argument: "fst (get_plot_command e) = e"
  by (simp add: get_plot_command_def Let_def split: sum.split prod.split pyval.split)

lemma plot_kwargs_entries: "fst (plot_kwargs es kwargs) = es"
proof (induction es arbitrary: kwargs)
  case Nil
  show ?case by simp
next
  case (Cons e es)
  have arg: "\<And>e' r. get_plot_command e = (e', r) \<Longrightarrow> e' = e"
    using get_plot_command_argument [of e] by simp
  have rest: "\<And>kw es' r. plot_kwargs es kw = (es', r) \<Longrightarrow> es' = es"
    using Cons.IH by (metis fst_conv)
  show ?case
    using rest arg
    by (auto split: option.split sum.split prod.split)
qed

lemma plot_settings: "settings (state_of (plot self s sh)) = settings self"
proof -
  obtain es r where k: "plot_kwargs (encodings (settings self)) [] = (es, r)"
    by (cases "plot_kwargs (encodings (settings self)) []")
  have es: "es = encodings (settings self)"
    using plot_kwargs_entries [of "encodings (settings self)" "[]"] k by simp
  show ?thesis
    unfolding plot_def k es
    by (simp add: Let_def split: sum.split prod.split pyval.split)
qed

text \<open>
  Claim C9. Compiling is pure with respect to the settings: whatever the settings of the
  instance are, and whether \<^verbatim>\<open>Interact.plot\<close> returns or raises, the instance's
  \<open>mark\<close> dictionary and every entry of its \<open>encodings\<close> list are afterwards what
  they were before; and \<^verbatim>\<open>_get_plot_command\<close> leaves the entry it is handed as it
  was, its pops working on the copy.
\<close>

theorem plot_leaves_settings:
  "settings (state_of (plot self s sh)) = settings self \<and> fst (get_plot_command e) = e"
  by (simp add: plot_settings get_plot_command_argument)

text \<open>
  Claim C10. \<^verbatim>\<open>Interact.plot\<close> ignores its \<^verbatim>\<open>settings\<close> parameter: on the same
  instance and with the same \<^verbatim>\<open>show\<close>, any two argument values give the same outcome,
  hence the same chart; the body reads \<^verbatim>\<open>self.settings\<close> only.
\<close>

theorem plot_ignores_argument: "plot self s1 sh = plot self s2 sh"
  by (simp add: plot_def)

section \<open>Evaluating the model on concrete inputs\<close>

lemmas widget_defs = new_widget_def with_attrs_def new_dropdown_def new_checkbox_def
  new_text_def new_button_def set_layout_def observe_def set_on_click_def set_row_def
  set_title_def

lemmas catalog_defs = get_encodings_def get_marks_def get_types_def get_functions_def
  get_mark_params_def get_columns_def

lemmas init_defs = Interact_init_def generate_controller_def create_shelf_def range_def
  slice_to_def getitem_def plot_def chart_has_def get_plot_command_def pop_def has_key_def
  Let_def

lemmas update_defs = update_def update_settings_def modify_entry_def pop_default_def
  change_def upper_def lower_def

lemmas fresh_defs = fresh_def iris_def init_defs widget_defs catalog_defs

lemma fresh_settings:
  "settings fresh =
     \<lparr>mark = [''mark'' \<mapsto> PStr ''mark_point''], encodings = [[''encoding'' \<mapsto> PStr ''x'']]\<rparr>"
  by (simp add: fresh_defs)

section \<open>What the compiler makes of an entry\<close>

text \<open>
  Claim C8. Compiling the entry \<^verbatim>\<open>{encoding: 'x', column: 'W', scale: 'log'}\<close> with
  \<^verbatim>\<open>_get_plot_command\<close> yields the call \<^verbatim>\<open>X('W', scale=Scale(type='log', zero=None))\<close>,
  whose dictionary form is \<^verbatim>\<open>{field: 'W', scale: {type: 'log'}}\<close>. In general, for an
  entry with a column and an encoding name, when \<^verbatim>\<open>scale\<close> or \<^verbatim>\<open>zero\<close> is present
  the constructor named after the capitalized encoding is called with the column and with a
  \<^verbatim>\<open>scale\<close> option holding the scale descriptor of the entry's \<^verbatim>\<open>scale\<close> and
  \<^verbatim>\<open>zero\<close> (\<^verbatim>\<open>None\<close> for the one that is absent); no \<^verbatim>\<open>zero\<close> option is passed
  at the top level, and every other key of the entry is passed on as it is.
\<close>

theorem scale_and_zero_are_bundled:
  assumes "e ''column'' = Some c" and "e ''encoding'' = Some (PStr n)"
    and "has_key e ''scale'' \<or> has_key e ''zero''"
  shows "(\<exists>kwargs. get_plot_command e = (e, Inr (Some (Channel (capitalize n) c kwargs)))
       \<and> kwargs ''scale'' = Some (Scale (case e ''scale'' of None \<Rightarrow> PNone | Some t \<Rightarrow> t)
                                      (case e ''zero'' of None \<Rightarrow> PNone | Some z \<Rightarrow> z))
       \<and> kwargs ''zero'' = None
       \<and> (\<forall>k. k \<notin> {''encoding'', ''column'', ''scale'', ''zero''} \<longrightarrow>
              kwargs k = map_option Plain (e k)))
     \<and> snd (get_plot_command [''encoding'' \<mapsto> PStr ''x'', ''column'' \<mapsto> PStr ''W'',
                               ''scale'' \<mapsto> PStr ''log''])
         = Inr (Some (Channel ''X'' (PStr ''W'') [''scale'' \<mapsto> Scale (PStr ''log'') PNone]))
     \<and> to_dict (Channel ''X'' (PStr ''W'') [''scale'' \<mapsto> Scale (PStr ''log'') PNone])
         = JObj [''field'' \<mapsto> JStr ''W'', ''scale'' \<mapsto> JObj [''type'' \<mapsto> JStr ''log'']]"
proof -
  have general: "\<exists>kwargs. get_plot_command e = (e, Inr (Some (Channel (capitalize n) c kwargs)))
       \<and> kwargs ''scale'' = Some (Scale (case e ''scale'' of None \<Rightarrow> PNone | Some t \<Rightarrow> t)
                                      (case e ''zero'' of None \<Rightarrow> PNone | Some z \<Rightarrow> z))
       \<and> kwargs ''zero'' = None
       \<and> (\<forall>k. k \<notin> {''encoding'', ''column'', ''scale'', ''zero''} \<longrightarrow>
              kwargs k = map_option Plain (e k))"
    using assms
    by (auto simp add: get_plot_command_def pop_def pop_default_def has_key_def Let_def
        map_add_def split: option.split)
  have call: "snd (get_plot_command [''encoding'' \<mapsto> PStr ''x'', ''column'' \<mapsto> PStr ''W'',
                               ''scale'' \<mapsto> PStr ''log''])
         = Inr (Some (Channel ''X'' (PStr ''W'') [''scale'' \<mapsto> Scale (PStr ''log'') PNone]))"
    by (auto simp add: get_plot_command_def pop_def pop_default_def has_key_def upper_def
        lower_def fun_eq_iff map_add_def)
  have form: "to_dict (Channel ''X'' (PStr ''W'') [''scale'' \<mapsto> Scale (PStr ''log'') PNone])
         = JObj [''field'' \<mapsto> JStr ''W'', ''scale'' \<mapsto> JObj [''type'' \<mapsto> JStr ''log'']]"
    by (auto simp add: given_def fun_eq_iff map_add_def)
  from general call form show ?thesis by blast
qed

theorem scale_and_zero_are_bundled_witness:
  "has_key [''encoding'' \<mapsto> PStr ''y'', ''column'' \<mapsto> PStr ''petalWidth'',
            ''zero'' \<mapsto> PBool False, ''bin'' \<mapsto> PBool True] ''zero''
   \<and> (\<exists>kwargs.
         snd (get_plot_command [''encoding'' \<mapsto> PStr ''y'', ''column'' \<mapsto> PStr ''petalWidth'',
                                ''zero'' \<mapsto> PBool False, ''bin'' \<mapsto> PBool True])
           = Inr (Some (Channel ''Y'' (PStr ''petalWidth'') kwargs))
         \<and> kwargs ''scale'' = Some (Scale PNone (PBool False))
         \<and> kwargs ''zero'' = None
         \<and> kwargs ''bin'' = Some (Plain (PBool True)))"
proof -
  let ?e = "[''encoding'' \<mapsto> PStr ''y'', ''column'' \<mapsto> PStr ''petalWidth'',
             ''zero'' \<mapsto> PBool False, ''bin'' \<mapsto> PBool True]"
  have column: "?e ''column'' = Some (PStr ''petalWidth'')" by simp
  have encoding: "?e ''encoding'' = Some (PStr ''y'')" by simp
  have zero: "has_key ?e ''scale'' \<or> has_key ?e ''zero''" by (simp add: has_key_def)
  from scale_and_zero_are_bundled [OF column encoding zero]
  obtain kwargs where
    call: "get_plot_command ?e = (?e, Inr (Some (Channel (capitalize ''y'') (PStr ''petalWidth'') kwargs)))"
    and scale: "kwargs ''scale'' = Some (Scale (case ?e ''scale'' of None \<Rightarrow> PNone | Some t \<Rightarrow> t)
                                      (case ?e ''zero'' of None \<Rightarrow> PNone | Some z \<Rightarrow> z))"
    and no_zero: "kwargs ''zero'' = None"
    and others: "\<forall>k. k \<notin> {''encoding'', ''column'', ''scale'', ''zero''} \<longrightarrow>
              kwargs k = map_option Plain (?e k)"
    by blast
  from others have bin: "kwargs ''bin'' = Some (Plain (PBool True))" by simp
  have name: "capitalize ''y'' = ''Y''" by (simp add: upper_def)
  from call scale no_zero bin name zero show ?thesis
    by (simp add: has_key_def)
qed

section \<open>Entries without a column\<close>

lemma setitem_mem: "(k, v) \<in> set (setitem kw k' v') \<Longrightarrow> (k = k' \<and> v = v') \<or> (k, v) \<in> set kw"
  by (induction kw k' v' rule: setitem.induct) (auto split: if_splits)

lemma plot_kwargs_fields:
  "plot_kwargs es kw = (es', Inr kw') \<Longrightarrow> (k, Some ch) \<in> set kw' \<Longrightarrow>
     (k, Some ch) \<in> set kw \<or>
     (\<exists>e. e \<in> set es \<and> e ''encoding'' = Some k \<and> has_key e ''column'' \<and>
          get_plot_command e = (e, Inr (Some ch)))"
proof (induction es arbitrary: kw es')
  case Nil
  then show ?case by simp
next
  case (Cons e es)
  from Cons.prems(1) obtain key where key: "e ''encoding'' = Some key"
    by (auto split: option.splits)
  obtain e' r where g: "get_plot_command e = (e', r)"
    by (cases "get_plot_command e")
  have e': "e' = e" using get_plot_command_argument [of e] g by simp
  from Cons.prems(1) key g obtain c where r: "r = Inr c"
    by (cases r) auto
  obtain es1 r1 where rest: "plot_kwargs es (setitem kw key c) = (es1, r1)"
    by (cases "plot_kwargs es (setitem kw key c)")
  from Cons.prems(1) key g r rest have r1: "r1 = Inr kw'" by simp
  from Cons.IH [OF rest [unfolded r1] Cons.prems(2)]
  show ?case
  proof
    assume "(k, Some ch) \<in> set (setitem kw key c)"
    then have "(k = key \<and> Some ch = c) \<or> (k, Some ch) \<in> set kw"
      by (rule setitem_mem)
    then show ?thesis
    proof
      assume kc: "k = key \<and> Some ch = c"
      have "has_key e ''column''"
      proof (rule ccontr)
        assume "\<not> has_key e ''column''"
        then have "get_plot_command e = (e, Inr None)" by (simp add: get_plot_command_def)
        with g r kc show False by simp
      qed
      with kc key g e' r show ?thesis by auto
    next
      assume "(k, Some ch) \<in> set kw"
      then show ?thesis by simp
    qed
  next
    assume "\<exists>e. e \<in> set es \<and> e ''encoding'' = Some k \<and> has_key e ''column'' \<and>
          get_plot_command e = (e, Inr (Some ch))"
    then show ?thesis by auto
  qed
qed

lemma str_keys_mem: "str_keys kw = Inr kws \<Longrightarrow> (k, v) \<in> set kws \<Longrightarrow> (PStr k, v) \<in> set kw"
  by (induction kw arbitrary: kws rule: str_keys.induct) (auto split: sum.splits)

text \<open>
  For an entry without a column \<^verbatim>\<open>_get_plot_command\<close> returns \<^verbatim>\<open>None\<close> at once,
  before any pop and any call of the library.
\<close>

lemma unbound_entry: "\<not> has_key e ''column'' \<Longrightarrow> get_plot_command e = (e, Inr None)"
  by (simp add: get_plot_command_def)

text \<open>
  In \<^verbatim>\<open>Interact.plot\<close> the \<^verbatim>\<open>None\<close> is stored under the entry's encoding name like
  any field: it takes the place of whatever an earlier entry of the same name put there.
\<close>

lemma unbound_entry_in_plot:
  "\<not> has_key e ''column'' \<Longrightarrow> e ''encoding'' = Some key \<Longrightarrow>
     plot_kwargs (e # es) kwargs =
       (case plot_kwargs es (setitem kwargs key None) of (es', r) \<Rightarrow> (e # es', r))"
  by (simp add: unbound_entry)

text \<open>Every field descriptor of a compiled chart was made from an entry that has a column.\<close>

lemma chart_fields:
  assumes ret: "plot self s sh = Returns self'"
  shows "\<exists>c. chart self' = Some c \<and>
           (\<forall>k field. (k, Some field) \<in> set (encoding c) \<longrightarrow>
              (\<exists>entry. entry \<in> set (encodings (settings self)) \<and>
                 entry ''encoding'' = Some (PStr k) \<and> has_key entry ''column'' \<and>
                 get_plot_command entry = (entry, Inr (Some field))))"
proof -
  obtain es' r where k: "plot_kwargs (encodings (settings self)) [] = (es', r)"
    by (cases "plot_kwargs (encodings (settings self)) []")
  from ret k obtain kw where r: "r = Inr kw"
    by (cases r) (auto simp: plot_def Let_def)
  from ret k r obtain mv opts where p: "pop (mark (settings self)) ''mark'' = Inr (mv, opts)"
    by (cases "pop (mark (settings self)) ''mark''") (auto simp: plot_def Let_def)
  from ret k r p obtain m where m: "mv = PStr m"
    by (cases mv) (auto simp: plot_def Let_def)
  from ret k r p m have known: "chart_has m"
    by (auto simp: plot_def Let_def split: if_splits)
  from ret k r p m known obtain kws where kws: "str_keys kw = Inr kws"
    by (cases "str_keys kw") (auto simp: plot_def Let_def)
  let ?c = "\<lparr>data = df self, mark_method = m, mark_opts = opts, encoding = kws\<rparr>"
  from ret k r p m known kws have c: "chart self' = Some ?c"
    by (auto simp: plot_def Let_def split: if_splits)
  have "\<forall>k field. (k, Some field) \<in> set kws \<longrightarrow>
              (\<exists>entry. entry \<in> set (encodings (settings self)) \<and>
                 entry ''encoding'' = Some (PStr k) \<and> has_key entry ''column'' \<and>
                 get_plot_command entry = (entry, Inr (Some field)))"
  proof (intro allI impI)
    fix k field
    assume "(k, Some field) \<in> set kws"
    with kws have "(PStr k, Some field) \<in> set kw" by (rule str_keys_mem)
    with plot_kwargs_fields [OF k [unfolded r]]
    show "\<exists>entry. entry \<in> set (encodings (settings self)) \<and>
                 entry ''encoding'' = Some (PStr k) \<and> has_key entry ''column'' \<and>
                 get_plot_command entry = (entry, Inr (Some field))"
      by fastforce
  qed
  with c show ?thesis
    by simp
qed

text \<open>
  Claim C6, at a concrete input. On the form built for two dimensions the column selector
  of row 0 (encoding x) was set to \<^verbatim>\<open>petalWidth\<close>: the compiled chart has the field
  \<^verbatim>\<open>X('petalWidth')\<close> under x and, for row 1, which has no column, \<^verbatim>\<open>None\<close>
  under y. Now the encoding selector of row 1 goes from y to x. The handler returns; the
  entry of row 0 still has its column and the entry of row 1 still has none; and the chart
  compiled has \<^verbatim>\<open>None\<close> under x and nothing else. The entry without a column has put
  its \<^verbatim>\<open>None\<close> where the field of row 0 was.
\<close>

theorem unbound_row_erases_bound_field:
  "map_option encoding (chart x_bound)
     = Some [(''x'', Some (Channel ''X'' (PStr ''petalWidth'') Map.empty)), (''y'', None)]
   \<and> returns (update (change 1 ''encoding'' (PStr ''y'') (PStr ''x'')) x_bound)
   \<and> encodings (settings (state_of (update (change 1 ''encoding'' (PStr ''y'') (PStr ''x'')) x_bound)))
     = [[''encoding'' \<mapsto> PStr ''x'', ''column'' \<mapsto> PStr ''petalWidth''],
        [''encoding'' \<mapsto> PStr ''x'']]
   \<and> map_option encoding
       (chart (state_of (update (change 1 ''encoding'' (PStr ''y'') (PStr ''x'')) x_bound)))
     = Some [(''x'', None)]"
  by (simp add: x_bound_def two_rows_def iris_def init_defs widget_defs catalog_defs update_defs
      fun_eq_iff map_add_def upt_rec)

section \<open>The synchronizer\<close>

lemma getitem_bound: "getitem xs i = Inr j \<Longrightarrow> j < length xs"
  by (auto simp: getitem_def split: if_splits)

text \<open>
  The handler changes the settings before it compiles, and compiling leaves them alone: the
  settings after \<^verbatim>\<open>update\<close>, returned or raised, are those its statements before the
  last line made.
\<close>

lemma update_settings_first:
  "settings (state_of (update event self)) = state_of (update_settings event (settings self))"
proof (cases "update_settings event (settings self)")
  case (Returns s)
  then show ?thesis
    using plot_settings [of "self\<lparr>settings := s\<rparr>" s True] by (simp add: update_def)
next
  case (Raises err s)
  then show ?thesis
    by (simp add: update_def)
qed

lemma pop_default_dict: "snd (pop_default d k dflt) = d(k := None)"
  by (auto simp: pop_default_def fun_eq_iff split: option.split)

text \<open>What an event titled \<^verbatim>\<open>text\<close> does to the entry of its row.\<close>

lemma text_event:
  assumes "title (owner event) = ''text''" and "row (owner event) \<noteq> - 1"
    and "getitem (encodings (settings self)) (row (owner event)) = Inr j"
  shows "encodings (settings (state_of (update event self))) ! j =
        (if val (owner event) = PStr [] then (encodings (settings self) ! j)(''text'' := None)
         else (encodings (settings self) ! j)(''column'' \<mapsto> val (owner event)))"
proof -
  let ?es = "encodings (settings self)"
  let ?d = "if val (owner event) = PStr [] then (?es ! j)(''text'' := None)
            else (?es ! j)(''column'' \<mapsto> val (owner event))"
  from assms(3) have j: "j < length ?es" by (rule getitem_bound)
  have "update_settings event (settings self) = Returns ((settings self)\<lparr>encodings := ?es[j := ?d]\<rparr>)"
    using assms
    by (simp add: update_settings_def modify_entry_def pop_default_dict Let_def)
  with j show ?thesis
    by (simp add: update_settings_first)
qed

text \<open>
  What a change event of the type control does when its new value contains
  \<^verbatim>\<open>auto\<close>: the value ends up stored under \<^verbatim>\<open>type\<close>.
\<close>

lemma auto_detect_event:
  assumes "title (owner event) = ''type''"
    and "val (owner event) = PStr s" and "contains s ''auto''" and "new event = PStr s"
    and "row (owner event) \<noteq> - 1"
    and "getitem (encodings (settings self)) (row (owner event)) = Inr j"
  shows "(encodings (settings (state_of (update event self))) ! j) ''type'' = Some (PStr s)"
proof -
  let ?es = "encodings (settings self)"
  from assms(6) have j: "j < length ?es" by (rule getitem_bound)
  have "getitem (?es[j := d]) (row (owner event)) = getitem ?es (row (owner event))" for d
    by (simp add: getitem_def)
  with assms(6) have again: "getitem (?es[j := d]) (row (owner event)) = Inr j" for d
    by simp
  have "update_settings event (settings self) =
          Returns ((settings self)\<lparr>encodings := ?es[j := (?es ! j)(''type'' \<mapsto> PStr s)]\<rparr>)"
    using assms j again
    by (simp add: update_settings_def modify_entry_def pop_default_dict Let_def)
  with j show ?thesis
    by (simp add: update_settings_first)
qed

text \<open>
  What the generic branch does when asked to remove a key the entry does not have: the
  handler raises KeyError before anything is changed.
\<close>

lemma removal_of_absent_key:
  assumes "title (owner event) \<noteq> ''text''" and "title (owner event) \<noteq> ''type''"
    and "new event = PNone" and "row (owner event) \<noteq> - 1"
    and "getitem (encodings (settings self)) (row (owner event)) = Inr j"
    and "\<not> has_key (encodings (settings self) ! j) (title (owner event))"
  shows "update event self = Raises KeyError self"
  using assms
  by (simp add: update_def update_settings_def modify_entry_def pop_def has_key_def Let_def)

text \<open>
  Claim C1, at a concrete input. On the fresh one-dimension form, the type control of row 0
  goes from \<^verbatim>\<open>'quantitative'\<close> to \<^verbatim>\<open>'auto detect'\<close>. The handler pops the
  \<^verbatim>\<open>type\<close> key and then, its next test being an \<^verbatim>\<open>if\<close> and not an \<^verbatim>\<open>elif\<close>,
  falls into the generic branch and stores the new value: it returns with
  \<^verbatim>\<open>type = 'auto detect'\<close> in the entry.
\<close>

theorem auto_detect_stores_type:
  "returns (update (change 0 ''type'' (PStr ''quantitative'') (PStr ''auto detect'')) fresh)
   \<and> (encodings (settings (state_of
         (update (change 0 ''type'' (PStr ''quantitative'') (PStr ''auto detect'')) fresh))) ! 0)
        ''type'' = Some (PStr ''auto detect'')"
  by (simp add: fresh_defs update_defs)

text \<open>
  Claim C3, at a concrete input. On the fresh one-dimension form, whose entry has no
  \<^verbatim>\<open>aggregate\<close> key, an event of row 0 titled \<^verbatim>\<open>aggregate\<close> with the new value
  \<^verbatim>\<open>None\<close> makes the handler raise KeyError (\<^verbatim>\<open>pop(title)\<close> has no default); the
  instance is left as it was.
\<close>

theorem removing_absent_key_raises:
  "update (change 0 ''aggregate'' (PStr ''mean'') PNone) fresh = Raises KeyError fresh"
  by (simp add: fresh_defs update_defs)

text \<open>
  Claim C4, at a concrete input. On the fresh form the mark row's color control goes to
  \<^verbatim>\<open>'blue'\<close> and back to \<^verbatim>\<open>None\<close>. The mark branch stores whatever the event
  carries: after the two events \<^verbatim>\<open>settings['mark']\<close> has the key \<^verbatim>\<open>color\<close>, and
  it holds \<^verbatim>\<open>None\<close>.
\<close>

theorem mark_option_holds_None:
  "mark (settings (state_of (update (change (- 1) ''color'' (PStr ''blue'') PNone)
              (state_of (update (change (- 1) ''color'' PNone (PStr ''blue'')) fresh)))))
        ''color'' = Some PNone"
  by (simp add: fresh_defs update_defs)

text \<open>
  Claim C2, at a concrete input. On the fresh one-dimension form the text control of row 0
  is set to \<^verbatim>\<open>'Sepal.Length'\<close> and then emptied. The first event stores the string
  under \<^verbatim>\<open>column\<close>, the key a text control writes to; the second runs
  \<^verbatim>\<open>pop('text', None)\<close> on an entry that has no \<^verbatim>\<open>text\<close> key. The handler
  returns, and the entry still has \<^verbatim>\<open>column = 'Sepal.Length'\<close>.
\<close>

theorem empty_text_keeps_column:
  "returns (update (change 0 ''text'' (PStr ''Sepal.Length'') (PStr ''''))
              (state_of (update (change 0 ''text'' (PStr '''') (PStr ''Sepal.Length'')) fresh)))
   \<and> (encodings (settings (state_of (update (change 0 ''text'' (PStr ''Sepal.Length'') (PStr ''''))
              (state_of (update (change 0 ''text'' (PStr '''') (PStr ''Sepal.Length'')) fresh))))) ! 0)
        ''column'' = Some (PStr ''Sepal.Length'')"
  by (simp add: fresh_defs update_defs)

text \<open>
  The removal of the empty-string branch never finds anything to remove: no statement of the
  program stores a \<^verbatim>\<open>text\<close> key in an encoding entry, so no entry of a form ever has
  one, whatever the user did.
\<close>

lemma modify_entry_keeps:
  assumes "list_all P (encodings s)" and "\<And>d d'. P d \<Longrightarrow> f d = Inr d' \<Longrightarrow> P d'"
  shows "list_all P (encodings (state_of (modify_entry s i f)))"
proof (cases "getitem (encodings s) i")
  case (Inl err)
  with assms(1) show ?thesis
    by (simp add: modify_entry_def)
next
  case (Inr j)
  then have j: "j < length (encodings s)" by (rule getitem_bound)
  show ?thesis
  proof (cases "f (encodings s ! j)")
    case (Inl err)
    with Inr assms(1) show ?thesis
      by (simp add: modify_entry_def)
  next
    case d: (Inr d)
    from assms(1) j have "P (encodings s ! j)"
      by (simp add: list_all_length)
    then have "P d" using d by (rule assms(2))
    with assms(1) j have "list_all P ((encodings s)[j := d])"
      by (auto simp: list_all_length nth_list_update)
    with Inr d show ?thesis
      by (simp add: modify_entry_def)
  qed
qed

lemma update_settings_never_text:
  assumes "list_all (\<lambda>e. \<not> has_key e ''text'') (encodings s)"
  shows "list_all (\<lambda>e. \<not> has_key e ''text'') (encodings (state_of (update_settings event s)))"
proof -
  let ?P = "\<lambda>e::dict. \<not> has_key e ''text''"
  let ?i = "row (owner event)"
  let ?t = "title (owner event)"
  let ?rest = "\<lambda>s. if ?t = ''text''
       then (if val (owner event) = PStr []
             then modify_entry s ?i (\<lambda>d. Inr (snd (pop_default d ''text'' PNone)))
             else modify_entry s ?i (\<lambda>d. Inr (d(''column'' \<mapsto> val (owner event)))))
       else (if new event = PNone
             then modify_entry s ?i (\<lambda>d. map_sum id snd (pop d ?t))
             else modify_entry s ?i (\<lambda>d. Inr (d(?t \<mapsto> new event))))"
  have rest: "list_all ?P (encodings (state_of (?rest s')))" if "list_all ?P (encodings s')" for s'
  proof (cases "?t = ''text''")
    case True
    then show ?thesis
      using that
      by (auto intro!: modify_entry_keeps simp: pop_default_dict has_key_def)
  next
    case False
    then show ?thesis
      using that
      by (auto intro!: modify_entry_keeps simp: pop_def has_key_def split: option.splits)
  qed
  show ?thesis
  proof (cases "?i = - 1")
    case True
    with assms show ?thesis
      by (simp add: update_settings_def Let_def)
  next
    case row: False
    show ?thesis
    proof (cases "if ?t = ''type'' then py_in ''auto'' (val (owner event)) else Inr False")
      case (Inl err)
      with row assms show ?thesis
        by (simp add: update_settings_def Let_def)
    next
      case auto: (Inr auto)
      let ?first = "if auto
          then modify_entry s ?i (\<lambda>d. Inr (snd (pop_default d ''type'' PNone)))
          else Returns s"
      have first: "list_all ?P (encodings (state_of ?first))"
        using assms
        by (auto intro!: modify_entry_keeps simp: pop_default_dict has_key_def)
      show ?thesis
      proof (cases ?first)
        case (Raises err s')
        with first row auto show ?thesis
          by (simp add: update_settings_def Let_def)
      next
        case (Returns s')
        with first have "list_all ?P (encodings s')" by simp
        then have "list_all ?P (encodings (state_of (?rest s')))" by (rule rest)
        with row auto Returns show ?thesis
          by (simp add: update_settings_def Let_def)
      qed
    qed
  qed
qed

lemma init_settings:
  assumes "Interact_init df_arg ndims show_arg = Inr self"
  shows "settings self =
           \<lparr>mark = [''mark'' \<mapsto> PStr ''mark_point''],
            encodings = map (\<lambda>encoding. [''encoding'' \<mapsto> PStr encoding])
                          (slice_to get_encodings ndims)\<rparr>"
proof -
  let ?s = "\<lparr>mark = [''mark'' \<mapsto> PStr ''mark_point''],
            encodings = map (\<lambda>encoding. [''encoding'' \<mapsto> PStr encoding])
                          (slice_to get_encodings ndims)\<rparr>"
  from assms obtain cols where df: "df_arg = DataFrame cols"
    by (cases df_arg) (simp_all add: Interact_init_def)
  from assms df obtain tree
    where tree: "generate_controller (PNone # get_columns cols) ndims = Inr tree"
    by (cases "generate_controller (PNone # get_columns cols) ndims")
      (simp_all add: Interact_init_def)
  let ?self0 = "\<lparr>df = cols, settings = ?s, controller = tree, show_flag = show_arg,
      chart = None, displayed = (if show_arg then [DisplayController] else [])\<rparr>"
  from assms df tree have "plot ?self0 ?s show_arg = Returns self"
    by (cases "plot ?self0 ?s show_arg") (simp_all add: Interact_init_def Let_def)
  then have "settings self = settings (state_of (plot ?self0 ?s show_arg))"
    by simp
  also have "\<dots> = ?s"
    by (simp add: plot_settings)
  finally show ?thesis .
qed

lemma show_advanced_settings:
  "show_advanced button disable self = Inr self' \<Longrightarrow> settings self' = settings self"
  by (auto simp: show_advanced_def Let_def split: option.splits sum.splits)

lemma reachable_never_has_text:
  "reachable self \<Longrightarrow> \<forall>e\<in>set (encodings (settings self)). \<not> has_key e ''text''"
proof (induction rule: reachable.induct)
  case (constructed df_arg ndims show_arg self)
  then show ?case
    by (auto simp: init_settings has_key_def)
next
  case (edited self path v tree)
  then show ?case by simp
next
  case (changed self event)
  then show ?case
    using update_settings_never_text [of "settings self" event]
    by (simp add: update_settings_first list_all_iff)
next
  case (clicked self button self')
  then show ?case
    by (simp add: show_advanced_settings)
qed

section \<open>Construction builds one row per dimension\<close>

text \<open>
  On settings whose names are catalog names the compiler returns: the mark method is one the
  chart has, every entry has an encoding name, and the names are strings.
\<close>

lemma get_plot_command_returns:
  "e ''encoding'' = Some (PStr n) \<Longrightarrow> \<exists>c. get_plot_command e = (e, Inr c)"
  by (simp add: get_plot_command_def pop_def has_key_def Let_def split: option.split prod.split)

lemma str_keys_setitem:
  "str_keys kw = Inr ks \<Longrightarrow> \<exists>ks'. str_keys (setitem kw (PStr k) v) = Inr ks'"
  by (induction kw arbitrary: ks rule: str_keys.induct) (auto split: sum.splits)

lemma plot_kwargs_returns:
  "list_all (\<lambda>e. names catalog (e ''encoding'')) es \<Longrightarrow> str_keys kw = Inr ks \<Longrightarrow>
     \<exists>kw' ks'. plot_kwargs es kw = (es, Inr kw') \<and> str_keys kw' = Inr ks'"
proof (induction es arbitrary: kw ks)
  case Nil
  then show ?case by simp
next
  case (Cons e es)
  from Cons.prems(1) obtain n where n: "e ''encoding'' = Some (PStr n)"
    by (auto simp: names_def split: option.splits pyval.splits)
  from get_plot_command_returns [of e n] n obtain c where c: "get_plot_command e = (e, Inr c)"
    by blast
  from str_keys_setitem [OF Cons.prems(2)] obtain ks1
    where ks1: "str_keys (setitem kw (PStr n) c) = Inr ks1" ..
  from Cons.prems(1) have "list_all (\<lambda>e. names catalog (e ''encoding'')) es" by simp
  from Cons.IH [OF this ks1] obtain kw' ks'
    where "plot_kwargs es (setitem kw (PStr n) c) = (es, Inr kw')" and "str_keys kw' = Inr ks'"
    by blast
  with n c show ?case by simp
qed

lemma plot_returns:
  assumes "well_formed (settings self)"
  shows "\<exists>self'. plot self s sh = Returns self'"
proof -
  from assms obtain m where m: "mark (settings self) ''mark'' = Some (PStr m)"
    and known: "chart_has m"
    by (auto simp: well_formed_def names_def chart_has_def split: option.splits pyval.splits)
  from assms have "list_all (\<lambda>e. names get_encodings (e ''encoding'')) (encodings (settings self))"
    by (simp add: well_formed_def)
  from plot_kwargs_returns [OF this, of "[]" "[]"] obtain kw' ks'
    where "plot_kwargs (encodings (settings self)) [] = (encodings (settings self), Inr kw')"
      and "str_keys kw' = Inr ks'"
    by auto
  with m known show ?thesis
    by (simp add: plot_def pop_def Let_def)
qed

lemma comprehension_all:
  "(\<And>x. x \<in> set xs \<Longrightarrow> \<exists>y. f x = Inr y) \<Longrightarrow>
     \<exists>ys. comprehension f xs = Inr ys \<and> length ys = length xs \<and>
          (\<forall>i<length xs. f (xs ! i) = Inr (ys ! i))"
proof (induction xs)
  case Nil
  then show ?case by simp
next
  case (Cons x xs)
  from Cons.prems obtain y where y: "f x = Inr y" by auto
  from Cons.IH Cons.prems obtain ys where ys: "comprehension f xs = Inr ys"
    "length ys = length xs" "\<forall>i<length xs. f (xs ! i) = Inr (ys ! i)"
    by auto
  have "\<forall>i<length (x # xs). f ((x # xs) ! i) = Inr ((y # ys) ! i)"
    using y ys(3) by (auto simp: nth_Cons split: nat.split)
  with y ys show ?case by simp
qed

lemma comprehension_first_error:
  "f x = Inl err \<Longrightarrow> (\<And>x'. x' \<in> set xs \<Longrightarrow> \<exists>y. f x' = Inr y) \<Longrightarrow>
     comprehension f (xs @ x # zs) = Inl err"
proof (induction xs)
  case Nil
  then show ?case by simp
next
  case (Cons a xs)
  from Cons.prems(2) obtain y where "f a = Inr y" by auto
  moreover have "comprehension f (xs @ x # zs) = Inl err"
    using Cons.IH Cons.prems by auto
  ultimately show ?case by simp
qed

lemma length_encodings: "length get_encodings = 9"
  by (simp add: get_encodings_def)

lemma create_shelf_row:
  assumes "0 \<le> i" and "i < 9"
  shows "\<exists>w. create_shelf columns i = Inr w
     \<and> map (\<lambda>c. w_title (attrs c)) (children w)
         = [Some ''column'', Some ''encoding'', Some ''button'', Some ''advanced'']
     \<and> map (\<lambda>c. w_row (attrs c)) (children w) = [Some i, Some i, Some i, Some i]
     \<and> w_value (attrs (children w ! 1)) = PStr (get_encodings ! nat i)"
  using assms
  by (simp add: create_shelf_def getitem_def length_encodings Let_def widget_defs)

lemma create_shelf_out_of_range: "9 \<le> i \<Longrightarrow> create_shelf columns i = Inl IndexError"
  by (simp add: create_shelf_def getitem_def length_encodings Let_def)

lemma range_nth: "i < nat n \<Longrightarrow> range n ! i = int i"
  by (simp add: range_def)

lemma length_range: "length (range n) = nat n"
  by (simp add: range_def)

lemma set_range: "x \<in> set (range n) \<Longrightarrow> 0 \<le> x \<and> x < n"
  by (auto simp: range_def)

lemma generate_controller_rows:
  assumes "0 \<le> n" and "n \<le> 9"
  shows "\<exists>dims mark_row. generate_controller columns n = Inr (Widget (new_widget VBox) (dims @ [mark_row]))
     \<and> length dims = nat n
     \<and> (\<forall>i<nat n. create_shelf columns (int i) = Inr (dims ! i))
     \<and> map (\<lambda>c. w_title (attrs c)) (children mark_row)
         = [Some ''mark'', Some ''mark_button'', Some ''mark_options'']"
proof -
  have "\<And>x. x \<in> set (range n) \<Longrightarrow> \<exists>y. create_shelf columns x = Inr y"
  proof -
    fix x assume "x \<in> set (range n)"
    then have "0 \<le> x" "x < 9" using set_range [of x n] assms by auto
    from create_shelf_row [OF this] show "\<exists>y. create_shelf columns x = Inr y" by blast
  qed
  from comprehension_all [of "range n" "create_shelf columns", OF this]
  obtain dims where dims: "comprehension (create_shelf columns) (range n) = Inr dims"
    "length dims = length (range n)"
    "\<forall>i<length (range n). create_shelf columns (range n ! i) = Inr (dims ! i)"
    by blast
  have "\<forall>i<nat n. create_shelf columns (int i) = Inr (dims ! i)"
    using dims(3) by (simp add: length_range range_nth)
  with dims(1,2) show ?thesis
    by (simp add: generate_controller_def Let_def length_range widget_defs)
qed

lemma plot_controller: "controller (state_of (plot self s sh)) = controller self"
proof -
  obtain es r where k: "plot_kwargs (encodings (settings self)) [] = (es, r)"
    by (cases "plot_kwargs (encodings (settings self)) []")
  show ?thesis
    unfolding plot_def k
    by (simp add: Let_def split: sum.split prod.split pyval.split)
qed

lemma slice_to_take: "0 \<le> n \<Longrightarrow> slice_to xs n = take (nat n) xs"
  by (simp add: slice_to_def)

text \<open>A dimension count above nine always ends in IndexError: there are nine encodings.\<close>

lemma too_many_dimensions:
  assumes "9 < n"
  shows "Interact_init (DataFrame cols) n sh = Inl IndexError"
proof -
  define k where "k = nat n - 10"
  have n: "nat n = 9 + Suc k"
    using assms unfolding k_def by linarith
  have "[0 ..< 9 + Suc k] = [0 ..< 9] @ [9 ..< 9 + Suc k]"
    by (rule upt_add_eq_append) simp
  moreover have "[9 ..< 9 + Suc k] = 9 # [Suc 9 ..< 9 + Suc k]"
    by (rule upt_conv_Cons) simp
  ultimately have r: "range n = range 9 @ 9 # map int [Suc 9 ..< 9 + Suc k]"
    by (simp add: range_def n)
  have ok: "\<And>x. x \<in> set (range 9) \<Longrightarrow> \<exists>y. create_shelf (PNone # get_columns cols) x = Inr y"
  proof -
    fix x assume "x \<in> set (range 9)"
    then have "0 \<le> x" "x < 9" using set_range [of x 9] by auto
    from create_shelf_row [OF this] show "\<exists>y. create_shelf (PNone # get_columns cols) x = Inr y"
      by blast
  qed
  have "comprehension (create_shelf (PNone # get_columns cols)) (range n) = Inl IndexError"
    unfolding r
    by (rule comprehension_first_error) (simp_all add: create_shelf_out_of_range ok)
  then show ?thesis
    by (simp add: Interact_init_def generate_controller_def Let_def)
qed

text \<open>
  Claim C5 as stated fails: with ten dimensions the tenth shelf asks for
  \<^verbatim>\<open>encodings[9]\<close> and the construction raises IndexError.
\<close>

theorem ten_dimensions_raise: "Interact_init iris 10 False = Inl IndexError"
  by (simp add: fresh_defs upt_rec)

text \<open>
  Claim C5, amended. For every dimension count \<open>n\<close> from 0 to 9, constructing
  \<^verbatim>\<open>Interact\<close> on a data frame succeeds, and the controller tree is \<open>n\<close> encoding rows
  followed by one mark row: the row at position \<open>i\<close> is the shelf \<^verbatim>\<open>_create_shelf\<close>
  builds for \<open>i\<close> (column selector, encoding selector showing the \<open>i\<close>-th encoding,
  options button, advanced panel), the last row holds the mark selector, its options button
  and its panel. The initial settings list the first \<open>n\<close> encodings in the order x, y,
  color, text, row, column, opacity, shape, size, each entry holding its encoding name only,
  under the default mark.
\<close>

theorem construction_rows:
  assumes "0 \<le> n" and "n \<le> 9"
  shows "\<exists>self dims mark_row. Interact_init (DataFrame cols) n sh = Inr self
     \<and> children (controller self) = dims @ [mark_row]
     \<and> length dims = nat n
     \<and> (\<forall>i<nat n. create_shelf (PNone # get_columns cols) (int i) = Inr (dims ! i)
            \<and> map (\<lambda>c. w_title (attrs c)) (children (dims ! i))
                = [Some ''column'', Some ''encoding'', Some ''button'', Some ''advanced'']
            \<and> w_value (attrs (children (dims ! i) ! 1)) = PStr (get_encodings ! i))
     \<and> map (\<lambda>c. w_title (attrs c)) (children mark_row)
         = [Some ''mark'', Some ''mark_button'', Some ''mark_options'']
     \<and> encodings (settings self)
         = map (\<lambda>encoding. [''encoding'' \<mapsto> PStr encoding]) (take (nat n) get_encodings)
     \<and> mark (settings self) = [''mark'' \<mapsto> PStr ''mark_point'']"
proof -
  let ?columns = "PNone # get_columns cols"
  let ?settings = "\<lparr>mark = [''mark'' \<mapsto> PStr ''mark_point''],
     encodings = map (\<lambda>encoding. [''encoding'' \<mapsto> PStr encoding]) (take (nat n) get_encodings)\<rparr>"
  from generate_controller_rows [OF assms, of ?columns]
  obtain dims mark_row where
    tree: "generate_controller ?columns n = Inr (Widget (new_widget VBox) (dims @ [mark_row]))"
    and len: "length dims = nat n"
    and shelves: "\<forall>i<nat n. create_shelf ?columns (int i) = Inr (dims ! i)"
    and mark_row: "map (\<lambda>c. w_title (attrs c)) (children mark_row)
         = [Some ''mark'', Some ''mark_button'', Some ''mark_options'']"
    by auto
  let ?self = "\<lparr>df = cols, settings = ?settings,
     controller = Widget (new_widget VBox) (dims @ [mark_row]),
     show_flag = sh, chart = None, displayed = (if sh then [DisplayController] else [])\<rparr>"
  have "well_formed (settings ?self)"
    by (auto simp: well_formed_def names_def get_marks_def list_all_iff dest: in_set_takeD)
  from plot_returns [OF this, of ?settings sh] obtain self'
    where p: "plot ?self ?settings sh = Returns self'" by blast
  from plot_settings [of ?self ?settings sh] p have s: "settings self' = ?settings" by simp
  from plot_controller [of ?self ?settings sh] p
  have c: "controller self' = Widget (new_widget VBox) (dims @ [mark_row])" by simp
  have init: "Interact_init (DataFrame cols) n sh = Inr self'"
    using tree p assms(1) by (simp add: Interact_init_def Let_def slice_to_take)
  have rows: "\<forall>i<nat n. create_shelf ?columns (int i) = Inr (dims ! i)
            \<and> map (\<lambda>c. w_title (attrs c)) (children (dims ! i))
                = [Some ''column'', Some ''encoding'', Some ''button'', Some ''advanced'']
            \<and> w_value (attrs (children (dims ! i) ! 1)) = PStr (get_encodings ! i)"
  proof (intro allI impI)
    fix i assume i: "i < nat n"
    then have "0 \<le> int i" "int i < 9" using assms by auto
    from create_shelf_row [OF this, of ?columns] shelves i
    show "create_shelf ?columns (int i) = Inr (dims ! i)
            \<and> map (\<lambda>c. w_title (attrs c)) (children (dims ! i))
                = [Some ''column'', Some ''encoding'', Some ''button'', Some ''advanced'']
            \<and> w_value (attrs (children (dims ! i) ! 1)) = PStr (get_encodings ! i)"
      by auto
  qed
  from init c len rows mark_row s show ?thesis
    by (intro exI [of _ self'] exI [of _ dims] exI [of _ mark_row]) simp
qed

theorem construction_rows_witness:
  "\<exists>self dims mark_row. Interact_init iris 2 False = Inr self
     \<and> children (controller self) = dims @ [mark_row]
     \<and> length dims = 2
     \<and> create_shelf (PNone # get_columns [PStr ''sepalLength'', PStr ''petalWidth'']) 1
         = Inr (dims ! 1)
     \<and> encodings (settings self) = [[''encoding'' \<mapsto> PStr ''x''], [''encoding'' \<mapsto> PStr ''y'']]"
proof -
  have bounds: "(0::int) \<le> 2" "(2::int) \<le> 9" by simp_all
  have first_two: "take (nat 2) get_encodings = [''x'', ''y'']"
    by (simp add: get_encodings_def)
  from construction_rows [OF bounds, of "[PStr ''sepalLength'', PStr ''petalWidth'']" False]
  obtain self dims mark_row where
    init: "Interact_init iris 2 False = Inr self"
    and rows: "children (controller self) = dims @ [mark_row]"
    and len: "length dims = nat 2"
    and shelves: "\<forall>i<nat 2.
        create_shelf (PNone # get_columns [PStr ''sepalLength'', PStr ''petalWidth'']) (int i)
          = Inr (dims ! i)
        \<and> map (\<lambda>c. w_title (attrs c)) (children (dims ! i))
            = [Some ''column'', Some ''encoding'', Some ''button'', Some ''advanced'']
        \<and> w_value (attrs (children (dims ! i) ! 1)) = PStr (get_encodings ! i)"
    and entries: "encodings (settings self)
       = map (\<lambda>encoding. [''encoding'' \<mapsto> PStr encoding]) (take (nat 2) get_encodings)"
    unfolding iris_def by auto
  from shelves have second:
    "create_shelf (PNone # get_columns [PStr ''sepalLength'', PStr ''petalWidth'']) (int 1)
       = Inr (dims ! 1)"
    by (elim allE [of _ 1]) simp
  from init rows len second entries show ?thesis
    unfolding first_two
    by (intro exI [of _ self] exI [of _ dims] exI [of _ mark_row]) simp
qed

section \<open>Toggling the advanced panel\<close>

lemma getitem_length: "length ys = length xs \<Longrightarrow> getitem ys i = getitem xs i"
  by (simp add: getitem_def)

lemma show_advanced_steps:
  assumes "show_advanced button disable self = Inr self1"
  obtains t b r p l adv cs where
    "w_title (attrs button) = Some t" and "w_row (attrs button) = Some b"
    and "getitem (children (controller self)) b = Inr r"
    and "getitem (children (children (controller self) ! r))
           (if contains t ''mark'' then 0 else disable) = Inr p"
    and "getitem (children (children (controller self) ! r)) (- 1) = Inr l"
    and "get_advanced_settings (w_value (attrs (children (children (controller self) ! r) ! p)))
           = Inr adv"
    and "comprehension controllers_for adv = Inr cs"
    and "self1 = self\<lparr>controller := Widget (attrs (controller self))
           ((children (controller self))[r := Widget (attrs (children (controller self) ! r))
              (toggled (children (children (controller self) ! r)) p l
                 (map (\<lambda>c. observe Update (set_row b c)) cs))])\<rparr>"
  using assms
  by (auto simp: show_advanced_def toggled_def Let_def split: option.splits sum.splits)

lemma show_advanced_returns:
  assumes "w_title (attrs button) = Some t" and "w_row (attrs button) = Some b"
    and "getitem (children (controller self)) b = Inr r"
    and "getitem (children (children (controller self) ! r))
           (if contains t ''mark'' then 0 else disable) = Inr p"
    and "getitem (children (children (controller self) ! r)) (- 1) = Inr l"
    and "get_advanced_settings (w_value (attrs (children (children (controller self) ! r) ! p)))
           = Inr adv"
    and "comprehension controllers_for adv = Inr cs"
  shows "show_advanced button disable self = Inr (self\<lparr>controller := Widget (attrs (controller self))
           ((children (controller self))[r := Widget (attrs (children (controller self) ! r))
              (toggled (children (children (controller self) ! r)) p l
                 (map (\<lambda>c. observe Update (set_row b c)) cs))])\<rparr>)"
  using assms
  by (simp add: show_advanced_def toggled_def Let_def)

lemma toggled_facts:
  assumes "p < length shelf" and "l < length shelf"
  shows "length (toggled shelf p l cs) = length shelf"
    and "w_value (attrs (toggled shelf p l cs ! p)) = w_value (attrs (shelf ! p))"
    and "disabled (attrs (toggled shelf p l cs ! p)) = (\<not> visible (attrs (shelf ! l)))"
    and "visible (attrs (toggled shelf p l cs ! l)) = (\<not> visible (attrs (shelf ! l)))"
  using assms
  by (auto simp: toggled_def Let_def with_attrs_def nth_list_update)

lemma toggle_twice:
  assumes first: "show_advanced button 1 self = Inr self1"
    and flags: "row_flags button 1 self = Inr (v, v)"
  shows "row_flags button 1 self1 = Inr (\<not> v, \<not> v)
     \<and> (\<exists>self2. show_advanced button 1 self1 = Inr self2 \<and> row_flags button 1 self2 = Inr (v, v))"
proof -
  from first obtain t b r p l adv cs where
    t: "w_title (attrs button) = Some t" and b: "w_row (attrs button) = Some b"
    and r: "getitem (children (controller self)) b = Inr r"
    and p: "getitem (children (children (controller self) ! r)) (if contains t ''mark'' then 0 else 1) = Inr p"
    and l: "getitem (children (children (controller self) ! r)) (- 1) = Inr l"
    and adv: "get_advanced_settings (w_value (attrs (children (children (controller self) ! r) ! p))) = Inr adv"
    and cs: "comprehension controllers_for adv = Inr cs"
    and self1: "self1 = self\<lparr>controller := Widget (attrs (controller self))
           ((children (controller self))[r := Widget (attrs (children (controller self) ! r))
              (toggled (children (children (controller self) ! r)) p l
                 (map (\<lambda>c. observe Update (set_row b c)) cs))])\<rparr>"
    by (rule show_advanced_steps)
  define rows where "rows = children (controller self)"
  define shelf where "shelf = children (rows ! r)"
  define cs' where "cs' = map (\<lambda>c. observe Update (set_row b c)) cs"
  define shelf1 where "shelf1 = toggled shelf p l cs'"
  define rows1 where "rows1 = rows[r := Widget (attrs (rows ! r)) shelf1]"
  have r_lt: "r < length rows" using r unfolding rows_def by (rule getitem_bound)
  have p_lt: "p < length shelf" using p unfolding shelf_def rows_def by (rule getitem_bound)
  have l_lt: "l < length shelf" using l unfolding shelf_def rows_def by (rule getitem_bound)
  have c1: "children (controller self1) = rows1"
    unfolding self1 rows1_def shelf1_def cs'_def shelf_def rows_def
    by simp
  have v: "visible (attrs (shelf ! l)) = v" "disabled (attrs (shelf ! p)) = v"
    using flags t b r p l
    by (simp_all add: row_flags_def Let_def rows_def shelf_def)
  have len_rows: "length rows1 = length rows" by (simp add: rows1_def)
  have row1: "children (rows1 ! r) = shelf1" using r_lt by (simp add: rows1_def)
  note tf = toggled_facts [OF p_lt l_lt, of cs', folded shelf1_def]
  have r1: "getitem rows1 b = Inr r"
    using r getitem_length [OF len_rows] by (simp add: rows_def)
  have p1: "getitem shelf1 (if contains t ''mark'' then 0 else 1) = Inr p"
    using p getitem_length [OF tf(1)] by (simp add: rows_def shelf_def)
  have l1: "getitem shelf1 (- 1) = Inr l"
    using l getitem_length [OF tf(1)] by (simp add: rows_def shelf_def)
  have adv1: "get_advanced_settings (w_value (attrs (shelf1 ! p))) = Inr adv"
    using adv tf(2) by (simp add: rows_def shelf_def)
  have flags1: "row_flags button 1 self1 = Inr (\<not> v, \<not> v)"
    using t b r1 p1 l1 tf(3,4) v
    by (simp add: row_flags_def Let_def c1 row1)
  define shelf2 where "shelf2 = toggled shelf1 p l cs'"
  define self2 where "self2 = self1\<lparr>controller := Widget (attrs (controller self1))
      (rows1[r := Widget (attrs (rows1 ! r)) shelf2])\<rparr>"
  have p_lt1: "p < length shelf1" using p_lt tf(1) by simp
  have l_lt1: "l < length shelf1" using l_lt tf(1) by simp
  note tf2 = toggled_facts [OF p_lt1 l_lt1, of cs', folded shelf2_def]
  have second: "show_advanced button 1 self1 = Inr self2"
    using t b r1 p1 l1 adv1 cs
    using show_advanced_returns [of button t b self1 r 1 p l adv cs]
    by (simp add: c1 row1 self2_def shelf2_def cs'_def)
  have c2: "children (controller self2) = rows1[r := Widget (attrs (rows1 ! r)) shelf2]"
    by (simp add: self2_def)
  have r_lt1: "r < length rows1" using r_lt len_rows by simp
  have row2: "children ((rows1[r := Widget (attrs (rows1 ! r)) shelf2]) ! r) = shelf2"
    using r_lt1 by simp
  have r2: "getitem (rows1[r := Widget (attrs (rows1 ! r)) shelf2]) b = Inr r"
    using r1 getitem_length [of "rows1[r := Widget (attrs (rows1 ! r)) shelf2]" rows1 b] by simp
  have p2: "getitem shelf2 (if contains t ''mark'' then 0 else 1) = Inr p"
    using p1 getitem_length [OF tf2(1)] by simp
  have l2: "getitem shelf2 (- 1) = Inr l"
    using l1 getitem_length [OF tf2(1)] by simp
  have flags2: "row_flags button 1 self2 = Inr (v, v)"
    using t b r2 p2 l2 tf2(3,4) tf(4) v
    by (simp add: row_flags_def Let_def c2 row2)
  from flags1 second flags2 show ?thesis by blast
qed

section \<open>The rows keep their shape\<close>

lemma is_encoding_row_shape:
  assumes "is_encoding_row i w"
  obtains cols enc but adv where "children w = [cols, enc, but, adv]"
    and "kind (attrs cols) = Dropdown" and "kind (attrs enc) = Dropdown"
    and "set (options (attrs enc)) = PStr ` set get_encodings"
    and "w_value (attrs enc) \<in> PStr ` set get_encodings"
    and "kind (attrs but) = Button" and "w_row (attrs but) = Some i"
    and "w_title (attrs but) = Some ''button''" and "kind (attrs adv) = HBox"
    and "disabled (attrs enc) = visible (attrs adv)"
  using assms
  by (auto simp: is_encoding_row_def split: list.splits)

lemma is_mark_row_shape:
  assumes "is_mark_row w"
  obtains mark_choose mark_but mark_opt where "children w = [mark_choose, mark_but, mark_opt]"
    and "kind (attrs mark_choose) = Dropdown"
    and "set (options (attrs mark_choose)) = PStr ` set get_marks"
    and "w_value (attrs mark_choose) \<in> PStr ` set get_marks"
    and "kind (attrs mark_but) = Button" and "w_row (attrs mark_but) = Some (- 1)"
    and "w_title (attrs mark_but) = Some ''mark_button''" and "kind (attrs mark_opt) = VBox"
    and "disabled (attrs mark_choose) = visible (attrs mark_opt)"
  using assms
  by (auto simp: is_mark_row_def split: list.splits)

lemma options_button_cases:
  assumes form: "is_form (controller self)" and button: "button \<in> set (options_buttons self)"
  obtains (encoding_button) dims m i where
      "children (controller self) = dims @ [m]" and "i < length dims"
      and "is_encoding_row (int i) (dims ! i)" and "children (dims ! i) ! 2 = button"
      and "is_mark_row m"
      and "\<forall>j<length dims. kind (attrs (dims ! j)) = HBox \<and> is_encoding_row (int j) (dims ! j)"
      and "kind (attrs m) = HBox"
  | (mark_button) dims m where
      "children (controller self) = dims @ [m]" and "is_mark_row m"
      and "children m ! 1 = button"
      and "\<forall>j<length dims. kind (attrs (dims ! j)) = HBox \<and> is_encoding_row (int j) (dims ! j)"
      and "kind (attrs m) = HBox"
proof -
  from form obtain dims m where rows: "children (controller self) = dims @ [m]"
    and m: "is_mark_row m" and mk: "kind (attrs m) = HBox"
    and dims: "\<forall>j<length dims. kind (attrs (dims ! j)) = HBox \<and> is_encoding_row (int j) (dims ! j)"
    by (auto simp: is_form_def)
  from button rows have b: "kind (attrs button) = Button"
    and "(\<exists>w \<in> set dims. button \<in> set (children w)) \<or> button \<in> set (children m)"
    by (auto simp: options_buttons_def)
  then consider w where "w \<in> set dims" "button \<in> set (children w)" | "button \<in> set (children m)"
    by blast
  then show thesis
  proof cases
    case 1
    from 1(1) obtain i where i: "i < length dims" "w = dims ! i"
      by (auto simp: in_set_conv_nth)
    with dims have row: "is_encoding_row (int i) (dims ! i)" by simp
    from row 1(2) i b have at2: "children (dims ! i) ! 2 = button"
      by (elim is_encoding_row_shape) auto
    from rows i(1) row at2 m dims mk show thesis by (rule encoding_button)
  next
    case 2
    with m b have at1: "children m ! 1 = button"
      by (elim is_mark_row_shape) auto
    from rows m at1 dims mk show thesis by (rule mark_button)
  qed
qed


lemma map_of_map_keyed:
  "map_of (map (\<lambda>(k, v). (k, g k v)) kvs) k = map_option (g k) (map_of kvs k)"
  by (induction kvs) auto

lemma controllers_for_known:
  assumes "opt \<in> set [''type'', ''bin'', ''aggregate'', ''zero'', ''text'', ''scale'', ''color'',
                       ''applyColorToBackground'', ''shortTimeLabels'']"
  shows "\<exists>c. controllers_for opt = Inr c"
proof -
  from assms show ?thesis
    unfolding controllers_for_def Let_def map_of_map_keyed
    by auto
qed

lemma advanced_settings_encoding:
  assumes "e \<in> set get_encodings"
  shows "\<exists>adv. get_advanced_settings (PStr e) = Inr adv \<and>
      set adv \<subseteq> set [''type'', ''bin'', ''aggregate'', ''zero'', ''text'', ''scale'', ''color'',
                       ''applyColorToBackground'', ''shortTimeLabels'']"
proof -
  from assms have "e = ''x'' \<or> e = ''y'' \<or> e = ''color'' \<or> e = ''text'' \<or> e = ''row''
      \<or> e = ''column'' \<or> e = ''opacity'' \<or> e = ''shape'' \<or> e = ''size''"
    by (simp add: get_encodings_def)
  then show ?thesis
    by (elim disjE)
      (simp_all add: get_advanced_settings_def iadd_def get_encodings_def get_marks_def
        get_mark_params_def map_add_def)
qed

lemma advanced_settings_mark:
  assumes "m \<in> set get_marks"
  shows "\<exists>adv. get_advanced_settings (PStr m) = Inr adv \<and>
      set adv \<subseteq> set [''type'', ''bin'', ''aggregate'', ''zero'', ''text'', ''scale'', ''color'',
                       ''applyColorToBackground'', ''shortTimeLabels'']"
proof -
  from assms have "m = ''mark_point'' \<or> m = ''mark_circle'' \<or> m = ''mark_line'' \<or> m = ''mark_bar''
      \<or> m = ''mark_tick'' \<or> m = ''mark_text'' \<or> m = ''mark_square'' \<or> m = ''mark_rule''
      \<or> m = ''mark_area''"
    by (simp add: get_marks_def)
  then show ?thesis
    by (elim disjE)
      (simp_all add: get_advanced_settings_def iadd_def get_encodings_def get_marks_def
        get_mark_params_def map_add_def)
qed

lemma advanced_controllers:
  assumes "\<exists>adv. get_advanced_settings v = Inr adv \<and>
      set adv \<subseteq> set [''type'', ''bin'', ''aggregate'', ''zero'', ''text'', ''scale'', ''color'',
                       ''applyColorToBackground'', ''shortTimeLabels'']"
  shows "\<exists>adv cs. get_advanced_settings v = Inr adv \<and> comprehension controllers_for adv = Inr cs"
proof -
  from assms obtain adv where adv: "get_advanced_settings v = Inr adv"
    and sub: "set adv \<subseteq> set [''type'', ''bin'', ''aggregate'', ''zero'', ''text'', ''scale'',
                       ''color'', ''applyColorToBackground'', ''shortTimeLabels'']"
    by blast
  have "\<And>x. x \<in> set adv \<Longrightarrow> \<exists>y. controllers_for x = Inr y"
    using sub controllers_for_known by blast
  from comprehension_all [of adv controllers_for, OF this] adv show ?thesis
    by blast
qed

lemma click_encoding_row:
  assumes rows: "children (controller self) = dims @ [m]" and i: "i < length dims"
    and row: "is_encoding_row (int i) (dims ! i)" and at2: "children (dims ! i) ! 2 = button"
  shows "\<exists>v self1 row1. row_flags button 1 self = Inr (v, v)
     \<and> show_advanced button 1 self = Inr self1
     \<and> attrs (controller self1) = attrs (controller self)
     \<and> children (controller self1) = dims[i := row1] @ [m]
     \<and> attrs row1 = attrs (dims ! i) \<and> is_encoding_row (int i) row1"
proof -
  from row obtain cols enc but adv where shelf: "children (dims ! i) = [cols, enc, but, adv]"
    and kinds: "kind (attrs cols) = Dropdown" "kind (attrs enc) = Dropdown"
      "kind (attrs but) = Button" "kind (attrs adv) = HBox"
    and opts: "set (options (attrs enc)) = PStr ` set get_encodings"
    and val: "w_value (attrs enc) \<in> PStr ` set get_encodings"
    and tags: "w_row (attrs but) = Some (int i)" "w_title (attrs but) = Some ''button''"
    and same: "disabled (attrs enc) = visible (attrs adv)"
    by (rule is_encoding_row_shape)
  from shelf at2 have but: "but = button" by simp
  have no_mark: "\<not> contains ''button'' ''mark''" by simp
  have r: "getitem (children (controller self)) (int i) = Inr i"
    using i by (simp add: rows getitem_def)
  have nth: "children (controller self) ! i = dims ! i"
    using i by (simp add: rows nth_append)
  have p: "getitem (children (children (controller self) ! i))
      (if contains ''button'' ''mark'' then 0 else 1) = Inr 1"
    by (simp add: nth shelf getitem_def)
  have l: "getitem (children (children (controller self) ! i)) (- 1) = Inr 3"
    by (simp add: nth shelf getitem_def)
  from val obtain e where e: "w_value (attrs enc) = PStr e" "e \<in> set get_encodings" by auto
  from advanced_controllers [OF advanced_settings_encoding [OF e(2)]] obtain adv_names cs
    where names: "get_advanced_settings (PStr e) = Inr adv_names"
      and cs: "comprehension controllers_for adv_names = Inr cs"
    by blast
  have names': "get_advanced_settings
      (w_value (attrs (children (children (controller self) ! i) ! 1))) = Inr adv_names"
    by (simp add: nth shelf e(1) names)
  let ?cs = "map (\<lambda>c. observe Update (set_row (int i) c)) cs"
  let ?row1 = "Widget (attrs (dims ! i)) (toggled [cols, enc, button, adv] 1 3 ?cs)"
  have nth': "(dims @ [m]) ! i = dims ! i"
    using i by (simp add: nth_append)
  have "w_title (attrs button) = Some ''button''" "w_row (attrs button) = Some (int i)"
    using tags by (simp_all add: but)
  from show_advanced_returns [OF this r p l names' cs]
  have ret: "show_advanced button 1 self = Inr (self\<lparr>controller := Widget (attrs (controller self))
      ((dims @ [m])[i := ?row1])\<rparr>)"
    by (simp add: rows nth' shelf but)
  have upd: "(dims @ [m])[i := ?row1] = dims[i := ?row1] @ [m]"
    using i by (simp add: list_update_append)
  have flags: "row_flags button 1 self = Inr (visible (attrs adv), visible (attrs adv))"
    using tags r p l same
    by (simp add: row_flags_def Let_def but [symmetric] nth shelf)
  have row1: "is_encoding_row (int i) ?row1"
    using kinds opts val tags same
    by (simp add: is_encoding_row_def toggled_def Let_def with_attrs_def but)
  from flags ret upd row1 show ?thesis
    by (intro exI [of _ "visible (attrs adv)"] exI [of _ "self\<lparr>controller := Widget (attrs (controller self))
      ((dims @ [m])[i := ?row1])\<rparr>"] exI [of _ ?row1]) simp
qed


lemma click_mark_row:
  assumes rows: "children (controller self) = dims @ [m]"
    and row: "is_mark_row m" and at1: "children m ! 1 = button"
  shows "\<exists>v self1 m1. row_flags button 1 self = Inr (v, v)
     \<and> show_advanced button 1 self = Inr self1
     \<and> attrs (controller self1) = attrs (controller self)
     \<and> children (controller self1) = dims @ [m1]
     \<and> attrs m1 = attrs m \<and> is_mark_row m1"
proof -
  from row obtain mark_choose mark_but mark_opt
    where shelf: "children m = [mark_choose, mark_but, mark_opt]"
    and kinds: "kind (attrs mark_choose) = Dropdown" "kind (attrs mark_but) = Button"
      "kind (attrs mark_opt) = VBox"
    and opts: "set (options (attrs mark_choose)) = PStr ` set get_marks"
    and val: "w_value (attrs mark_choose) \<in> PStr ` set get_marks"
    and tags: "w_row (attrs mark_but) = Some (- 1)" "w_title (attrs mark_but) = Some ''mark_button''"
    and same: "disabled (attrs mark_choose) = visible (attrs mark_opt)"
    by (rule is_mark_row_shape)
  from shelf at1 have but: "mark_but = button" by simp
  have r: "getitem (children (controller self)) (- 1) = Inr (length dims)"
    by (simp add: rows getitem_def)
  have nth: "children (controller self) ! length dims = m"
    by (simp add: rows)
  have p: "getitem (children (children (controller self) ! length dims))
      (if contains ''mark_button'' ''mark'' then 0 else 1) = Inr 0"
    by (simp add: nth shelf getitem_def)
  have l: "getitem (children (children (controller self) ! length dims)) (- 1) = Inr 2"
    by (simp add: nth shelf getitem_def)
  from val obtain k where k: "w_value (attrs mark_choose) = PStr k" "k \<in> set get_marks" by auto
  from advanced_controllers [OF advanced_settings_mark [OF k(2)]] obtain adv_names cs
    where names: "get_advanced_settings (PStr k) = Inr adv_names"
      and cs: "comprehension controllers_for adv_names = Inr cs"
    by blast
  have names': "get_advanced_settings
      (w_value (attrs (children (children (controller self) ! length dims) ! 0))) = Inr adv_names"
    by (simp add: nth shelf k(1) names)
  let ?cs = "map (\<lambda>c. observe Update (set_row (- 1) c)) cs"
  let ?m1 = "Widget (attrs m) (toggled [mark_choose, button, mark_opt] 0 2 ?cs)"
  have nth': "(dims @ [m]) ! length dims = m" by simp
  have "w_title (attrs button) = Some ''mark_button''" "w_row (attrs button) = Some (- 1)"
    using tags by (simp_all add: but)
  from show_advanced_returns [OF this r p l names' cs]
  have ret: "show_advanced button 1 self = Inr (self\<lparr>controller := Widget (attrs (controller self))
      (dims @ [?m1])\<rparr>)"
    by (simp add: rows shelf but)
  have flags: "row_flags button 1 self = Inr (visible (attrs mark_opt), visible (attrs mark_opt))"
    using tags r p l same
    by (simp add: row_flags_def Let_def but [symmetric] nth shelf)
  have m1: "is_mark_row ?m1"
    using kinds opts val tags same
    by (simp add: is_mark_row_def toggled_def Let_def with_attrs_def but)
  from flags ret m1 show ?thesis
    by (intro exI [of _ "visible (attrs mark_opt)"]
        exI [of _ "self\<lparr>controller := Widget (attrs (controller self)) (dims @ [?m1])\<rparr>"]
        exI [of _ ?m1]) simp
qed

lemma click_ready:
  assumes form: "is_form (controller self)" and button: "button \<in> set (options_buttons self)"
  shows "\<exists>v self1. row_flags button 1 self = Inr (v, v)
     \<and> show_advanced button 1 self = Inr self1 \<and> is_form (controller self1)"
  using form button
proof (cases rule: options_button_cases)
  case (encoding_button dims m i)
  from click_encoding_row [OF encoding_button(1-4)] obtain v self1 row1 where
    flags: "row_flags button 1 self = Inr (v, v)"
    and ret: "show_advanced button 1 self = Inr self1"
    and a: "attrs (controller self1) = attrs (controller self)"
    and c: "children (controller self1) = dims[i := row1] @ [m]"
    and row1: "attrs row1 = attrs (dims ! i)" "is_encoding_row (int i) row1"
    by blast
  have "\<forall>j<length (dims[i := row1]).
      kind (attrs (dims[i := row1] ! j)) = HBox \<and> is_encoding_row (int j) (dims[i := row1] ! j)"
    using encoding_button(2,6) row1 by (auto simp: nth_list_update)
  with a c encoding_button(5,7) form have "is_form (controller self1)"
    unfolding is_form_def by auto
  with flags ret show ?thesis by blast
next
  case (mark_button dims m)
  from click_mark_row [OF mark_button(1-3)] obtain v self1 m1 where
    flags: "row_flags button 1 self = Inr (v, v)"
    and ret: "show_advanced button 1 self = Inr self1"
    and a: "attrs (controller self1) = attrs (controller self)"
    and c: "children (controller self1) = dims @ [m1]"
    and m1: "attrs m1 = attrs m" "is_mark_row m1"
    by blast
  from a c m1 mark_button(4,5) form have "is_form (controller self1)"
    unfolding is_form_def by auto
  with flags ret show ?thesis by blast
qed

lemma comprehension_results:
  "comprehension f xs = Inr ys \<Longrightarrow>
     length ys = length xs \<and> (\<forall>i<length xs. f (xs ! i) = Inr (ys ! i))"
proof (induction xs arbitrary: ys)
  case Nil
  then show ?case by simp
next
  case (Cons x xs)
  from Cons.prems obtain y ys' where y: "f x = Inr y" and ys': "comprehension f xs = Inr ys'"
    and ys: "ys = y # ys'"
    by (auto split: sum.splits)
  from Cons.IH [OF ys'] y ys show ?case
    by (auto simp: nth_Cons split: nat.split)
qed

lemma create_shelf_encoding_row:
  assumes "create_shelf columns i = Inr w" and "0 \<le> i"
  shows "kind (attrs w) = HBox \<and> is_encoding_row i w"
proof -
  from assms have i: "i < 9"
    by (auto simp: create_shelf_def getitem_def length_encodings Let_def split: if_splits)
  then have "get_encodings ! nat i \<in> set get_encodings"
    using assms(2) by (intro nth_mem) (simp add: length_encodings)
  with assms i show ?thesis
    by (auto simp: create_shelf_def getitem_def Let_def widget_defs is_encoding_row_def
        length_encodings)
qed

lemma generate_controller_form:
  assumes "generate_controller columns n = Inr tree"
  shows "is_form tree"
proof -
  from assms obtain dims where dims: "comprehension (create_shelf columns) (range n) = Inr dims"
    by (auto simp: generate_controller_def Let_def split: sum.splits)
  from comprehension_results [OF dims]
  have len: "length dims = length (range n)"
    and each: "\<forall>i<length (range n). create_shelf columns (range n ! i) = Inr (dims ! i)"
    by auto
  have rows: "\<forall>i<length dims. kind (attrs (dims ! i)) = HBox \<and> is_encoding_row (int i) (dims ! i)"
  proof (intro allI impI)
    fix i assume "i < length dims"
    with len each have "create_shelf columns (int i) = Inr (dims ! i)"
      by (simp add: range_def)
    from create_shelf_encoding_row [OF this]
    show "kind (attrs (dims ! i)) = HBox \<and> is_encoding_row (int i) (dims ! i)" by simp
  qed
  from assms dims obtain m where tree: "tree = Widget (new_widget VBox) (dims @ [m])"
    and m: "kind (attrs m) = HBox \<and> is_mark_row m"
    by (auto simp: generate_controller_def Let_def widget_defs is_mark_row_def get_marks_def)
  with rows show ?thesis
    unfolding is_form_def by (auto simp: new_widget_def)
qed

lemma init_form:
  assumes "Interact_init df_arg n sh = Inr self"
  shows "is_form (controller self)"
proof -
  from assms obtain cols tree s0 d0
    where tree: "generate_controller (PNone # get_columns cols) n = Inr tree"
    and p: "plot \<lparr>df = cols, settings = s0, controller = tree, show_flag = sh,
                  chart = None, displayed = d0\<rparr> s0 sh = Returns self"
    by (auto simp: Interact_init_def Let_def split: py_object.splits sum.splits outcome.splits)
  from plot_controller [of "\<lparr>df = cols, settings = s0, controller = tree, show_flag = sh,
                  chart = None, displayed = d0\<rparr>" s0 sh] p
  have "controller self = tree"
    by simp
  with generate_controller_form [OF tree] show ?thesis by simp
qed

lemma update_controller: "controller (state_of (update event self)) = controller self"
proof (cases "update_settings event (settings self)")
  case (Returns s)
  with plot_controller [of "self\<lparr>settings := s\<rparr>" s True] show ?thesis
    by (simp add: update_def)
next
  case (Raises err s)
  then show ?thesis by (simp add: update_def)
qed


lemma edit_attrs:
  assumes "edit_value path v w = Some w'"
  shows "kind (attrs w') = kind (attrs w)" and "options (attrs w') = options (attrs w)"
    and "disabled (attrs w') = disabled (attrs w)" and "visible (attrs w') = visible (attrs w)"
    and "w_row (attrs w') = w_row (attrs w)" and "w_title (attrs w') = w_title (attrs w)"
    and "kind (attrs w) = Dropdown \<Longrightarrow>
           w_value (attrs w') = w_value (attrs w) \<or> w_value (attrs w') \<in> set (options (attrs w))"
  using assms
  by (cases path; auto simp: with_attrs_def split: if_splits)+

lemma edit_encoding_row:
  assumes edit: "edit_value (c # rest) v w = Some w'" and row: "is_encoding_row i w"
  shows "is_encoding_row i w'"
proof -
  from row obtain cols enc but adv where shelf: "children w = [cols, enc, but, adv]"
    and facts: "kind (attrs cols) = Dropdown" "kind (attrs enc) = Dropdown"
      "set (options (attrs enc)) = PStr ` set get_encodings"
      "w_value (attrs enc) \<in> PStr ` set get_encodings"
      "kind (attrs but) = Button" "w_row (attrs but) = Some i"
      "w_title (attrs but) = Some ''button''" "kind (attrs adv) = HBox"
      "disabled (attrs enc) = visible (attrs adv)"
    by (rule is_encoding_row_shape)
  from edit shelf obtain x where c: "c < 4" and x: "edit_value rest v ([cols, enc, but, adv] ! c) = Some x"
    and w': "children w' = [cols, enc, but, adv][c := x]"
    by (auto split: if_splits)
  from c consider "c = 0" | "c = 1" | "c = 2" | "c = 3" by linarith
  then show ?thesis
  proof cases
    case 1
    with x w' facts edit_attrs(1) [of rest v cols x] show ?thesis
      by (simp add: is_encoding_row_def)
  next
    case 2
    with x have e: "edit_value rest v enc = Some x" by simp
    from edit_attrs [OF e] facts 2 w' show ?thesis
      by (auto simp: is_encoding_row_def)
  next
    case 3
    with x have e: "edit_value rest v but = Some x" by simp
    from edit_attrs [OF e] facts 3 w' show ?thesis
      by (simp add: is_encoding_row_def)
  next
    case 4
    with x have e: "edit_value rest v adv = Some x" by simp
    from edit_attrs [OF e] facts 4 w' show ?thesis
      by (simp add: is_encoding_row_def)
  qed
qed

lemma edit_mark_row:
  assumes edit: "edit_value (c # rest) v w = Some w'" and row: "is_mark_row w"
  shows "is_mark_row w'"
proof -
  from row obtain mark_choose mark_but mark_opt
    where shelf: "children w = [mark_choose, mark_but, mark_opt]"
    and facts: "kind (attrs mark_choose) = Dropdown"
      "set (options (attrs mark_choose)) = PStr ` set get_marks"
      "w_value (attrs mark_choose) \<in> PStr ` set get_marks"
      "kind (attrs mark_but) = Button" "w_row (attrs mark_but) = Some (- 1)"
      "w_title (attrs mark_but) = Some ''mark_button''" "kind (attrs mark_opt) = VBox"
      "disabled (attrs mark_choose) = visible (attrs mark_opt)"
    by (rule is_mark_row_shape)
  from edit shelf obtain x where c: "c < 3"
    and x: "edit_value rest v ([mark_choose, mark_but, mark_opt] ! c) = Some x"
    and w': "children w' = [mark_choose, mark_but, mark_opt][c := x]"
    by (auto split: if_splits)
  from c consider "c = 0" | "c = 1" | "c = 2" by linarith
  then show ?thesis
  proof cases
    case 1
    with x have e: "edit_value rest v mark_choose = Some x" by simp
    from edit_attrs [OF e] facts 1 w' show ?thesis
      by (auto simp: is_mark_row_def)
  next
    case 2
    with x have e: "edit_value rest v mark_but = Some x" by simp
    from edit_attrs [OF e] facts 2 w' show ?thesis
      by (simp add: is_mark_row_def)
  next
    case 3
    with x have e: "edit_value rest v mark_opt = Some x" by simp
    from edit_attrs [OF e] facts 3 w' show ?thesis
      by (simp add: is_mark_row_def)
  qed
qed

lemma edit_box:
  assumes "edit_value path v w = Some w'" and "kind (attrs w) = HBox \<or> kind (attrs w) = VBox"
  obtains c rest where "path = c # rest" and "attrs w' = attrs w"
  using assms
  by (cases path) (auto split: if_splits)

lemma edit_form:
  assumes edit: "edit_value path v tree = Some tree'" and form: "is_form tree"
  shows "is_form tree'"
proof -
  from form obtain dims m where vbox: "kind (attrs tree) = VBox"
    and rows: "children tree = dims @ [m]"
    and m: "kind (attrs m) = HBox" "is_mark_row m"
    and dims: "\<forall>i<length dims. kind (attrs (dims ! i)) = HBox \<and> is_encoding_row (int i) (dims ! i)"
    by (auto simp: is_form_def)
  from edit vbox obtain r rest where path: "path = r # rest" and a: "attrs tree' = attrs tree"
    by (auto elim: edit_box)
  from edit path rows obtain row' where r: "r < length (dims @ [m])"
    and row': "edit_value rest v ((dims @ [m]) ! r) = Some row'"
    and c: "children tree' = (dims @ [m])[r := row']"
    by (auto split: if_splits)
  show ?thesis
  proof (cases "r < length dims")
    case True
    with row' have e: "edit_value rest v (dims ! r) = Some row'" by (simp add: nth_append)
    from dims True have hbox: "kind (attrs (dims ! r)) = HBox"
      and old: "is_encoding_row (int r) (dims ! r)" by auto
    from e hbox obtain c' rest' where rest: "rest = c' # rest'" and a': "attrs row' = attrs (dims ! r)"
      by (auto elim: edit_box)
    from edit_encoding_row [OF e [unfolded rest] old] have new: "is_encoding_row (int r) row'" .
    from True c have c': "children tree' = dims[r := row'] @ [m]"
      by (simp add: list_update_append)
    have "\<forall>i<length (dims[r := row']). kind (attrs (dims[r := row'] ! i)) = HBox
        \<and> is_encoding_row (int i) (dims[r := row'] ! i)"
      using dims new a' hbox True by (auto simp: nth_list_update)
    with a vbox c' m show ?thesis
      unfolding is_form_def by auto
  next
    case False
    with r have r_eq: "r = length dims" by simp
    with row' have e: "edit_value rest v m = Some row'" by simp
    from e m(1) obtain c' rest' where rest: "rest = c' # rest'" and a': "attrs row' = attrs m"
      by (auto elim: edit_box)
    from edit_mark_row [OF e [unfolded rest] m(2)] have new: "is_mark_row row'" .
    from r_eq c have c': "children tree' = dims @ [row']" by simp
    with a vbox m(1) a' new dims show ?thesis
      unfolding is_form_def by auto
  qed
qed

text \<open>Every state of a form has rows of the builder's shape.\<close>

lemma reachable_form: "reachable self \<Longrightarrow> is_form (controller self)"
proof (induction rule: reachable.induct)
  case (constructed df_arg ndims show_arg self)
  then show ?case by (rule init_form)
next
  case (edited self path v tree)
  from edit_form [OF edited.hyps(2) edited.IH] show ?case by simp
next
  case (changed self event)
  then show ?case by (simp add: update_controller)
next
  case (clicked self button self')
  from click_ready [OF clicked.IH clicked.hyps(2)] clicked.hyps(3) show ?case by auto
qed

text \<open>
  Claim C7. In every state of a form, on every row, toggling the options button twice
  restores the flags: both calls of \<^verbatim>\<open>_show_advanced\<close> return; before the first the
  primary selector's \<^verbatim>\<open>disabled\<close> flag and the advanced panel's \<^verbatim>\<open>visible\<close> flag
  agree, after the first both are flipped, and after the second both have the values they
  had before the first.
\<close>

theorem toggling_twice_restores_flags:
  assumes "reachable self" and "button \<in> set (options_buttons self)"
  shows "\<exists>v self1 self2. row_flags button 1 self = Inr (v, v)
     \<and> show_advanced button 1 self = Inr self1
     \<and> row_flags button 1 self1 = Inr (\<not> v, \<not> v)
     \<and> show_advanced button 1 self1 = Inr self2
     \<and> row_flags button 1 self2 = row_flags button 1 self"
proof -
  from reachable_form [OF assms(1)] have "is_form (controller self)" .
  from click_ready [OF this assms(2)] obtain v self1
    where flags: "row_flags button 1 self = Inr (v, v)"
      and first: "show_advanced button 1 self = Inr self1"
    by blast
  from toggle_twice [OF first flags] flags first show ?thesis
    by auto
qed


lemma fresh_constructed: "Interact_init iris 1 False = Inr fresh"
  by (simp add: fresh_defs)

theorem toggling_twice_restores_flags_witness:
  "reachable fresh
   \<and> children (children (controller fresh) ! 0) ! 2 \<in> set (options_buttons fresh)
   \<and> (\<exists>self1 self2.
         row_flags (children (children (controller fresh) ! 0) ! 2) 1 fresh = Inr (False, False)
       \<and> show_advanced (children (children (controller fresh) ! 0) ! 2) 1 fresh = Inr self1
       \<and> row_flags (children (children (controller fresh) ! 0) ! 2) 1 self1 = Inr (True, True)
       \<and> show_advanced (children (children (controller fresh) ! 0) ! 2) 1 self1 = Inr self2
       \<and> row_flags (children (children (controller fresh) ! 0) ! 2) 1 self2 = Inr (False, False))"
proof -
  let ?button = "children (children (controller fresh) ! 0) ! 2"
  have reach: "reachable fresh"
    using fresh_constructed by (rule reachable.constructed)
  have button: "?button \<in> set (options_buttons fresh)"
    by (simp add: options_buttons_def fresh_defs)
  have flags: "row_flags ?button 1 fresh = Inr (False, False)"
    by (simp add: row_flags_def fresh_defs)
  from toggling_twice_restores_flags [OF reach button] flags reach button show ?thesis
    by auto
qed

end
